theory Spec2Isabelle
  imports Complex_Main "HOL-Library.Multiset"
begin

section \<open>Constants and the planet table\<close>

text \<open>
  The game is a TypeScript module over the matter-js physics engine. JavaScript numbers
  are modelled by their mathematical values: coordinates, velocities and clock readings
  are \<open>real\<close>, levels and scores are \<open>int\<close>. Rounding of floating-point arithmetic is
  outside the model.
\<close>

definition DEADLINE_RATIO :: real where
  "DEADLINE_RATIO = 18 / 100"

definition DEADLINE_THRESHOLD_MS :: real where
  "DEADLINE_THRESHOLD_MS = 1500"

definition DROP_COOLDOWN_MS :: real where
  "DROP_COOLDOWN_MS = 400"

definition MERGE_FLASH_DURATION :: real where
  "MERGE_FLASH_DURATION = 100"

definition SCORE_POP_DURATION :: real where
  "SCORE_POP_DURATION = 600"

definition BLACK_HOLE_DURATION :: real where
  "BLACK_HOLE_DURATION = 900"

definition BLACK_HOLE_BONUS :: int where
  "BLACK_HOLE_BONUS = 5000"

definition SE_GLOBAL_COOLDOWN_MS :: real where
  "SE_GLOBAL_COOLDOWN_MS = 80"

definition SE_DROP_THRESHOLD :: real where
  "SE_DROP_THRESHOLD = 1 / 2"

text \<open>
  \<open>PlanetDef\<close>: the display name and the colour of a planet are presentation data and
  are left out; the remaining fields carry the prefix \<open>p_\<close> because \<open>score\<close> is also a
  variable of the session.
\<close>

record PlanetDef =
  p_level :: int
  p_radius :: real
  p_mass :: real
  p_score :: int

definition PLANETS :: "int \<Rightarrow> PlanetDef option" where
  "PLANETS = map_of
     [(1, \<lparr>p_level = 1, p_radius = 21, p_mass = 1, p_score = 10\<rparr>),
      (2, \<lparr>p_level = 2, p_radius = 26, p_mass = 12 / 10, p_score = 20\<rparr>),
      (3, \<lparr>p_level = 3, p_radius = 31, p_mass = 15 / 10, p_score = 40\<rparr>),
      (4, \<lparr>p_level = 4, p_radius = 39, p_mass = 19 / 10, p_score = 80\<rparr>),
      (5, \<lparr>p_level = 5, p_radius = 48, p_mass = 24 / 10, p_score = 160\<rparr>),
      (6, \<lparr>p_level = 6, p_radius = 59, p_mass = 3, p_score = 320\<rparr>),
      (7, \<lparr>p_level = 7, p_radius = 70, p_mass = 37 / 10, p_score = 640\<rparr>),
      (8, \<lparr>p_level = 8, p_radius = 84, p_mass = 45 / 10, p_score = 1280\<rparr>),
      (9, \<lparr>p_level = 9, p_radius = 99, p_mass = 55 / 10, p_score = 2560\<rparr>),
      (10, \<lparr>p_level = 10, p_radius = 118, p_mass = 68 / 10, p_score = 5120\<rparr>),
      (11, \<lparr>p_level = 11, p_radius = 140, p_mass = 85 / 10, p_score = 10240\<rparr>)]"

definition NEXT_CANDIDATES :: "int list" where
  "NEXT_CANDIDATES = [1, 2, 3, 4, 5]"

definition NEXT_WEIGHTS :: "int \<Rightarrow> int option" where
  "NEXT_WEIGHTS = map_of [(1, 6), (2, 6), (3, 5), (4, 4), (5, 3)]"

section \<open>Session state\<close>

datatype error = TypeError

text \<open>
  \<open>hiScore\<close> comes from \<open>parseInt\<close>, which can return \<open>NaN\<close>; every comparison with
  \<open>NaN\<close> is false.
\<close>

datatype jsnum = Num int | NaN

fun gt :: "int \<Rightarrow> jsnum \<Rightarrow> bool" where
  "gt i (Num h) = (h < i)"
| "gt i NaN = False"

record Flash =
  flash_x :: real
  flash_y :: real
  flash_startTime :: real

record ScorePop =
  pop_x :: real
  pop_y :: real
  pop_score :: int
  pop_startTime :: real

record BlackHoleEffect =
  bh_x :: real
  bh_y :: real
  bh_startTime :: real

text \<open>
  A body object of the engine, with the fields the game reads: \<open>planet\<close> is
  \<open>plugin.planet.level\<close> (\<open>None\<close> when the body has no \<open>plugin.planet\<close>, as the walls),
  \<open>dropSePlayed\<close> is \<open>plugin.dropSePlayed\<close>.
\<close>

record Body =
  isStatic :: bool
  planet :: "int option"
  dropSePlayed :: bool
  position_x :: real
  position_y :: real
  velocity_x :: real
  velocity_y :: real
  circleRadius :: real

record PlanetBag =
  items :: "int list"
  lastItem :: "int option"

text \<open>
  The module's variables and the part of the engine they touch. Body objects are
  referred to by their engine id: \<open>bodies\<close> says which object an id denotes (objects
  stay readable after they are removed from the world, as the collision pairs keep
  references to them), \<open>world\<close> is the body array of \<open>engine.world\<close>, \<open>nextId\<close> the
  engine's id counter. \<open>audioReady\<close> says that the audio context exists and is not
  suspended; \<open>height\<close> is \<open>render.options.height\<close> and \<open>clientWidth\<close> the width of the
  game container; \<open>ground\<close>, \<open>leftWall\<close> and \<open>rightWall\<close> are \<open>None\<close> while undefined.
\<close>

record Game =
  bodies :: "nat \<Rightarrow> Body"
  world :: "nat list"
  nextId :: nat
  score :: int
  hiScore :: jsnum
  discoveredLevels :: "int list"
  currentLevel :: int
  nextLevel :: int
  dropX :: real
  isCoolingDown :: bool
  isGameOver :: bool
  deadLineViolatedStartTime :: "real option"
  flashes :: "Flash list"
  scorePops :: "ScorePop list"
  blackHoleEffects :: "BlackHoleEffect list"
  mergeLockedBodies :: "nat set"
  lastSeTime :: real
  audioReady :: bool
  planetBag :: PlanetBag
  localStorage :: "string \<rightharpoonup> string"
  height :: real
  clientWidth :: real
  ground :: "nat option"
  leftWall :: "nat option"
  rightWall :: "nat option"

section \<open>Engine and platform primitives\<close>

text \<open>
  \<open>Composite.remove\<close> takes each given body out of the array at its first position, if
  it is there; \<open>Composite.add\<close> appends; \<open>Bodies.circle\<close> makes a resting, non-static
  circle.
\<close>

definition Composite_remove :: "nat list \<Rightarrow> nat list \<Rightarrow> nat list" where
  "Composite_remove w hs = foldl (\<lambda>acc h. remove1 h acc) w hs"

definition Composite_add :: "nat list \<Rightarrow> nat list \<Rightarrow> nat list" where
  "Composite_add w hs = w @ hs"

definition Bodies_circle :: "real \<Rightarrow> real \<Rightarrow> real \<Rightarrow> int \<Rightarrow> bool \<Rightarrow> Body" where
  "Bodies_circle x y r lv played =
     \<lparr>isStatic = False, planet = Some lv, dropSePlayed = played,
      position_x = x, position_y = y, velocity_x = 0, velocity_y = 0, circleRadius = r\<rparr>"

definition Vector_magnitude :: "real \<Rightarrow> real \<Rightarrow> real" where
  "Vector_magnitude x y = sqrt (x * x + y * y)"

text \<open>Decimal text of an integer, as \<open>toString\<close> gives it, and \<open>JSON.stringify\<close> of an array of integers.\<close>

fun digits :: "nat \<Rightarrow> string" where
  "digits n = (if n < 10 then [''0123456789'' ! n]
               else digits (n div 10) @ [''0123456789'' ! (n mod 10)])"

declare digits.simps [simp del]

definition toString :: "int \<Rightarrow> string" where
  "toString i = (if i < 0 then CHR ''-'' # digits (nat (- i)) else digits (nat i))"

fun join_commas :: "string list \<Rightarrow> string" where
  "join_commas [] = []"
| "join_commas [x] = x"
| "join_commas (x # y # ys) = x @ '','' @ join_commas (y # ys)"

definition JSON_stringify :: "int list \<Rightarrow> string" where
  "JSON_stringify xs = ''['' @ join_commas (map toString xs) @ '']''"

text \<open>
  \<open>playSe\<close>: the oscillator itself is outside the model; what stays is the global
  cooldown. \<open>now\<close> is the reading of \<open>performance.now()\<close>.
\<close>

definition playSe :: "real \<Rightarrow> string \<Rightarrow> real \<Rightarrow> real \<Rightarrow> Game \<Rightarrow> Game" where
  "playSe freq wave volume now s =
     (if \<not> audioReady s then s
      else if now - lastSeTime s < SE_GLOBAL_COOLDOWN_MS then s
      else s\<lparr>lastSeTime := now\<rparr>)"

section \<open>Merge resolution\<close>

text \<open>
  Two groups of statements occur several times in the source and are named here.
  \<open>discoverLevel\<close> is
  \<^verbatim>\<open>if (!discoveredLevels.has(lv)) { discoveredLevels.add(lv); localStorage.setItem(...); }\<close>
  of \<open>dropPlanet\<close> and \<open>handleMerge\<close>; \<open>addScore\<close> is
  \<^verbatim>\<open>score += pts; if (score > hiScore) { hiScore = score; localStorage.setItem(...); }\<close>
  of \<open>handleMerge\<close> and \<open>triggerBlackHole\<close>. The updates of the HUD and of the evolution
  gallery are presentation and are not modelled.
\<close>

definition discoverLevel :: "int \<Rightarrow> Game \<Rightarrow> Game" where
  "discoverLevel lv s =
     (if lv \<notin> set (discoveredLevels s)
      then s\<lparr>discoveredLevels := discoveredLevels s @ [lv],
             localStorage := (localStorage s)(''discoveredLevels'' \<mapsto>
                 JSON_stringify (discoveredLevels s @ [lv]))\<rparr>
      else s)"

definition addScore :: "int \<Rightarrow> Game \<Rightarrow> Game" where
  "addScore pts s =
     (let s1 = s\<lparr>score := score s + pts\<rparr>
      in if gt (score s1) (hiScore s1)
         then s1\<lparr>hiScore := Num (score s1),
                 localStorage := (localStorage s1)(''hiScore'' \<mapsto> toString (score s1))\<rparr>
         else s1)"

definition handleMerge :: "real \<Rightarrow> nat \<Rightarrow> nat \<Rightarrow> Game \<Rightarrow> error + Game" where
  "handleMerge now a b s =
     (let bodyA = bodies s a; bodyB = bodies s b in
      case planet bodyA of
        None \<Rightarrow> Inl TypeError
      | Some lv \<Rightarrow>
          let newLv = lv + 1;
              x = (position_x bodyA + position_x bodyB) / 2;
              y = (position_y bodyA + position_y bodyB) / 2;
              s1 = s\<lparr>world := Composite_remove (world s) [a, b]\<rparr>
          in case PLANETS newLv of
               None \<Rightarrow> Inl TypeError
             | Some def \<Rightarrow>
                 let n = nextId s1;
                     newPlanet = Bodies_circle x y (p_radius def) (p_level def) True;
                     s2 = s1\<lparr>bodies := (bodies s1)(n := newPlanet), nextId := Suc n,
                             world := Composite_add (world s1) [n]\<rparr>;
                     s3 = discoverLevel newLv s2;
                     s4 = addScore (p_score def) s3;
                     s5 = s4\<lparr>flashes := flashes s4 @ [\<lparr>flash_x = x, flash_y = y, flash_startTime = now\<rparr>]\<rparr>;
                     s6 = s5\<lparr>scorePops := scorePops s5 @
                               [\<lparr>pop_x = x, pop_y = y, pop_score = p_score def, pop_startTime = now\<rparr>]\<rparr>
                 in Inr (playSe (200 + real_of_int newLv * 100) ''sine'' (1 / 2) now s6))"

definition triggerBlackHole :: "real \<Rightarrow> real \<Rightarrow> real \<Rightarrow> Game \<Rightarrow> Game" where
  "triggerBlackHole now x y s =
     (let planets = filter (\<lambda>i. \<not> isStatic (bodies s i) \<and> planet (bodies s i) \<noteq> None) (world s);
          s1 = s\<lparr>world := Composite_remove (world s) planets\<rparr>;
          s2 = addScore BLACK_HOLE_BONUS s1;
          s3 = s2\<lparr>blackHoleEffects := blackHoleEffects s2 @ [\<lparr>bh_x = x, bh_y = y, bh_startTime = now\<rparr>]\<rparr>;
          s4 = s3\<lparr>scorePops := scorePops s3 @
                    [\<lparr>pop_x = x, pop_y = y, pop_score = BLACK_HOLE_BONUS, pop_startTime = now\<rparr>]\<rparr>
      in playSe 60 ''sine'' (7 / 10) now s4)"

text \<open>
  The \<open>collisionStart\<close> handler, for one pair. First block: a contact with a static
  body plays the one-shot impact sound of the planet of the pair.
\<close>

definition boundaryContact :: "real \<Rightarrow> nat \<Rightarrow> nat \<Rightarrow> Game \<Rightarrow> Game" where
  "boundaryContact now a b s =
     (let bodyA = bodies s a; bodyB = bodies s b in
      if isStatic bodyA \<or> isStatic bodyB then
        (case (if planet bodyA \<noteq> None then Some a
               else if planet bodyB \<noteq> None then Some b else None) of
           None \<Rightarrow> s
         | Some p \<Rightarrow>
             (case planet (bodies s p) of
                None \<Rightarrow> s
              | Some lv \<Rightarrow>
                  if \<not> dropSePlayed (bodies s p) then
                    (let relVel = Vector_magnitude (velocity_x bodyA - velocity_x bodyB)
                                                   (velocity_y bodyA - velocity_y bodyB)
                     in if relVel > SE_DROP_THRESHOLD then
                          (let s1 = playSe (100 + real_of_int lv * 20) ''square'' (min (relVel / 10) 1) now s
                           in s1\<lparr>bodies := (bodies s1)(p := (bodies s1 p)\<lparr>dropSePlayed := True\<rparr>)\<rparr>)
                        else s)
                  else s))
      else s)"

text \<open>Second block: two planets of the same level merge, unless one of them is locked.\<close>

definition collisionPair :: "real \<Rightarrow> Game \<Rightarrow> nat \<times> nat \<Rightarrow> error + Game" where
  "collisionPair now s0 pr =
     (let a = fst pr; b = snd pr;
          s = boundaryContact now a b s0;
          bodyA = bodies s a; bodyB = bodies s b
      in case planet bodyA of
           None \<Rightarrow> Inr s
         | Some la \<Rightarrow>
             (case planet bodyB of
                None \<Rightarrow> Inr s
              | Some lb \<Rightarrow>
                  if la = 11 \<and> lb = 11 then
                    (if a \<notin> mergeLockedBodies s \<and> b \<notin> mergeLockedBodies s then
                       Inr (triggerBlackHole now
                              ((position_x bodyA + position_x bodyB) / 2)
                              ((position_y bodyA + position_y bodyB) / 2)
                              (s\<lparr>mergeLockedBodies := insert b (insert a (mergeLockedBodies s))\<rparr>))
                     else Inr s)
                  else if la = lb \<and> la < 11 then
                    (if a \<notin> mergeLockedBodies s \<and> b \<notin> mergeLockedBodies s then
                       handleMerge now a b
                         (s\<lparr>mergeLockedBodies := insert b (insert a (mergeLockedBodies s))\<rparr>)
                     else Inr s)
                  else Inr s))"

text \<open>
  \<open>event.pairs.forEach\<close>: the pairs in the order delivered; an exception ends the
  handler.
\<close>

fun collisionStart :: "real \<Rightarrow> Game \<Rightarrow> (nat \<times> nat) list \<Rightarrow> error + Game" where
  "collisionStart now s [] = Inr s"
| "collisionStart now s (pr # prs) =
     (case collisionPair now s pr of
        Inl e \<Rightarrow> Inl e
      | Inr s' \<Rightarrow> collisionStart now s' prs)"

section \<open>The bag of upcoming levels\<close>

text \<open>
  \<open>Math.random()\<close> is an input of the model: a \<open>random\<close> is the sequence of values the
  next calls will return, and each function that draws hands back what is left of it.
  The specification of \<open>Math.random\<close> is \<open>valid_random\<close>: every value is in \<open>[0, 1)\<close>.
\<close>

type_synonym random = "nat \<Rightarrow> real"

definition valid_random :: "random \<Rightarrow> bool" where
  "valid_random rnd = (\<forall>k. 0 \<le> rnd k \<and> rnd k < 1)"

text \<open>
  \<open>shuffle\<close>: the loop \<open>for (i = length - 1; i > 0; i--)\<close>; the second argument of
  \<open>shuffle_loop\<close> is the loop variable \<open>i\<close>.
\<close>

fun shuffle_loop :: "random \<Rightarrow> nat \<Rightarrow> int list \<Rightarrow> int list \<times> random" where
  "shuffle_loop rnd 0 xs = (xs, rnd)"
| "shuffle_loop rnd (Suc i) xs =
     (let j = nat \<lfloor>rnd 0 * (real (Suc i) + 1)\<rfloor>
      in shuffle_loop (\<lambda>k. rnd (Suc k)) i (xs[Suc i := xs ! j, j := xs ! Suc i]))"

definition shuffle :: "random \<Rightarrow> int list \<Rightarrow> int list \<times> random" where
  "shuffle rnd xs = shuffle_loop rnd (length xs - 1) xs"

definition refill :: "random \<Rightarrow> PlanetBag \<Rightarrow> PlanetBag \<times> random" where
  "refill rnd bag =
     (let filled = concat (map (\<lambda>lv. replicate (case NEXT_WEIGHTS lv of None \<Rightarrow> 0 | Some c \<Rightarrow> nat c) lv)
                            NEXT_CANDIDATES);
          (shuffled, rnd') = shuffle rnd filled
      in (bag\<lparr>items := shuffled\<rparr>, rnd'))"

definition new_PlanetBag :: "random \<Rightarrow> PlanetBag \<times> random" where
  "new_PlanetBag rnd = refill rnd \<lparr>items = [], lastItem = None\<rparr>"

definition reset :: "random \<Rightarrow> PlanetBag \<Rightarrow> PlanetBag \<times> random" where
  "reset rnd bag = refill rnd (bag\<lparr>lastItem := None\<rparr>)"

text \<open>
  \<open>pull\<close> returns \<open>None\<close> where the source would return \<open>undefined\<close> (an array still
  empty after the refill).
\<close>

definition pull :: "random \<Rightarrow> PlanetBag \<Rightarrow> int option \<times> PlanetBag \<times> random" where
  "pull rnd bag0 =
     (let (bag, rnd') = (if items bag0 = [] then refill rnd bag0 else (bag0, rnd));
          index = (if length (items bag) > 1 \<and> Some (items bag ! 0) = lastItem bag then 1 else 0)
      in if index < length (items bag) then
           (let val = items bag ! index
            in (Some val,
                bag\<lparr>items := take index (items bag) @ drop (Suc index) (items bag),
                    lastItem := Some val\<rparr>,
                rnd'))
         else (None, bag\<lparr>lastItem := None\<rparr>, rnd'))"

section \<open>The deadline\<close>

definition setGameOver :: "bool \<Rightarrow> Game \<Rightarrow> Game" where
  "setGameOver v s = s\<lparr>isGameOver := v\<rparr>"

text \<open>The loop of \<open>checkDeadline\<close> that looks for a violating body.\<close>

definition deadlineViolation :: "Game \<Rightarrow> bool" where
  "deadlineViolation s =
     (let h = height s; dy = h * DEADLINE_RATIO
      in list_ex (\<lambda>i. let b = bodies s i
                       in \<not> isStatic b \<and> planet b \<noteq> None
                          \<and> position_y b - circleRadius b < dy \<and> position_y b > 120)
                 (world s))"

text \<open>
  \<open>!deadLineViolatedStartTime\<close> holds for \<open>null\<close> and for the number 0.
\<close>

definition checkDeadline :: "real \<Rightarrow> Game \<Rightarrow> Game" where
  "checkDeadline now s =
     (if isGameOver s then s
      else if deadlineViolation s then
        (case deadLineViolatedStartTime s of
           None \<Rightarrow> s\<lparr>deadLineViolatedStartTime := Some now\<rparr>
         | Some t \<Rightarrow>
             if t = 0 then s\<lparr>deadLineViolatedStartTime := Some now\<rparr>
             else if now - t > DEADLINE_THRESHOLD_MS then setGameOver True s
             else s)
      else s\<lparr>deadLineViolatedStartTime := None\<rparr>)"

text \<open>The \<open>afterUpdate\<close> handler.\<close>

definition afterUpdate :: "real \<Rightarrow> Game \<Rightarrow> Game" where
  "afterUpdate now s = checkDeadline now (s\<lparr>mergeLockedBodies := {}\<rparr>)"

text \<open>
  The \<open>afterRender\<close> handler, as far as the state goes: each effect queue keeps the
  entries that are not older than their duration (the drawing is presentation).
\<close>

definition afterRender :: "real \<Rightarrow> Game \<Rightarrow> Game" where
  "afterRender now s =
     s\<lparr>flashes := filter (\<lambda>f. \<not> now - flash_startTime f > MERGE_FLASH_DURATION) (flashes s),
       scorePops := filter (\<lambda>p. \<not> now - pop_startTime p > SCORE_POP_DURATION) (scorePops s),
       blackHoleEffects :=
         filter (\<lambda>e. \<not> now - bh_startTime e > BLACK_HOLE_DURATION) (blackHoleEffects s)\<rparr>"

section \<open>Dropping, resetting and starting\<close>

definition updateDropX :: "real \<Rightarrow> Game \<Rightarrow> error + Game" where
  "updateDropX x s =
     (case PLANETS (currentLevel s) of
        None \<Rightarrow> Inl TypeError
      | Some def \<Rightarrow>
          Inr (s\<lparr>dropX := max (p_radius def + 5) (min (clientWidth s - p_radius def - 5) x)\<rparr>))"

text \<open>
  \<open>dropPlanet\<close>. A level that is \<open>undefined\<close> makes \<open>updateHUD\<close> fail on
  \<open>PLANETS[nextLevel].name\<close>. The timer that ends the cooldown, \<open>DROP_COOLDOWN_MS\<close> after
  the drop, is \<open>cooldownElapsed\<close>.
\<close>

definition dropPlanet :: "random \<Rightarrow> Game \<Rightarrow> error + Game" where
  "dropPlanet rnd s =
     (case PLANETS (currentLevel s) of
        None \<Rightarrow> Inl TypeError
      | Some def \<Rightarrow>
          let s1 = discoverLevel (currentLevel s) s;
              n = nextId s1;
              newPlanet = Bodies_circle (dropX s1) 50 (p_radius def) (p_level def) False;
              s2 = s1\<lparr>bodies := (bodies s1)(n := newPlanet), nextId := Suc n,
                      world := Composite_add (world s1) [n]\<rparr>;
              (v, bag, rnd') = pull rnd (planetBag s2)
          in case v of
               None \<Rightarrow> Inl TypeError
             | Some nl \<Rightarrow>
                 Inr (s2\<lparr>currentLevel := nextLevel s2, nextLevel := nl, planetBag := bag,
                         isCoolingDown := True\<rparr>))"

definition cooldownElapsed :: "Game \<Rightarrow> Game" where
  "cooldownElapsed s = s\<lparr>isCoolingDown := False\<rparr>"

definition resetGame :: "random \<Rightarrow> Game \<Rightarrow> error + Game" where
  "resetGame rnd s =
     (let s1 = s\<lparr>world := Composite_remove (world s)
                            (filter (\<lambda>i. \<not> isStatic (bodies s i)) (world s))\<rparr>;
          s2 = s1\<lparr>score := 0, deadLineViolatedStartTime := None\<rparr>;
          s3 = setGameOver False s2;
          s4 = s3\<lparr>blackHoleEffects := []\<rparr>;
          (bag0, rnd0) = reset rnd (planetBag s4);
          (v1, bag1, rnd1) = pull rnd0 bag0;
          (v2, bag2, rnd2) = pull rnd1 bag1
      in case v1 of
           None \<Rightarrow> Inl TypeError
         | Some nl \<Rightarrow>
             (case v2 of
                None \<Rightarrow> Inl TypeError
              | Some cl \<Rightarrow>
                  Inr (s4\<lparr>planetBag := bag2, nextLevel := nl, currentLevel := cl,
                          discoveredLevels := [],
                          localStorage := (localStorage s4)(''discoveredLevels'' \<mapsto> JSON_stringify [])\<rparr>)))"

text \<open>
  \<open>rebuildBounds\<close>: the old walls leave the world, three new static rectangles enter
  it.
\<close>

definition Bodies_rectangle :: "real \<Rightarrow> real \<Rightarrow> Body" where
  "Bodies_rectangle x y =
     \<lparr>isStatic = True, planet = None, dropSePlayed = False,
      position_x = x, position_y = y, velocity_x = 0, velocity_y = 0, circleRadius = 0\<rparr>"

definition rebuildBounds :: "real \<Rightarrow> real \<Rightarrow> Game \<Rightarrow> Game" where
  "rebuildBounds w h s =
     (let s1 = (if ground s \<noteq> None \<or> leftWall s \<noteq> None \<or> rightWall s \<noteq> None
                then s\<lparr>world := Composite_remove (world s)
                         (concat (map (\<lambda>wl. case wl of None \<Rightarrow> [] | Some i \<Rightarrow> [i])
                                    [ground s, leftWall s, rightWall s]))\<rparr>
                else s);
          n = nextId s1
      in s1\<lparr>bodies := (bodies s1)(n := Bodies_rectangle (w / 2) (h + 30),
                                    Suc n := Bodies_rectangle (- 30) (h / 2),
                                    Suc (Suc n) := Bodies_rectangle (w + 30) (h / 2)),
             nextId := Suc (Suc (Suc n)),
             ground := Some n, leftWall := Some (Suc n), rightWall := Some (Suc (Suc n)),
             world := Composite_add (world s1) [n, Suc n, Suc (Suc n)]\<rparr>)"

definition handleResize :: "real \<Rightarrow> real \<Rightarrow> Game \<Rightarrow> error + Game" where
  "handleResize w h s =
     updateDropX (dropX s) (rebuildBounds w h (s\<lparr>height := h, clientWidth := w\<rparr>))"

text \<open>
  \<open>parseInt\<close> without a radix: leading white space, a sign, the prefix \<open>0x\<close> for
  base 16, then the longest run of digits; no digit gives \<open>NaN\<close>. (White space is the
  ASCII white space here.)
\<close>

definition isWhiteSpace :: "char \<Rightarrow> bool" where
  "isWhiteSpace c = (c \<in> set [CHR 0x09, CHR 0x0A, CHR 0x0B, CHR 0x0C, CHR 0x0D, CHR 0x20])"

definition digitValue :: "char \<Rightarrow> nat option" where
  "digitValue c =
     (let n = (of_char c :: nat)
      in if 48 \<le> n \<and> n \<le> 57 then Some (n - 48)
         else if 97 \<le> n \<and> n \<le> 122 then Some (n - 87)
         else if 65 \<le> n \<and> n \<le> 90 then Some (n - 55)
         else None)"

definition isDigitOf :: "nat \<Rightarrow> char \<Rightarrow> bool" where
  "isDigitOf radix c = (case digitValue c of None \<Rightarrow> False | Some d \<Rightarrow> d < radix)"

definition digitsValue :: "nat \<Rightarrow> string \<Rightarrow> nat" where
  "digitsValue radix cs = foldl (\<lambda>acc c. acc * radix + (case digitValue c of None \<Rightarrow> 0 | Some d \<Rightarrow> d)) 0 cs"

definition parseInt :: "string \<Rightarrow> jsnum" where
  "parseInt str =
     (let s1 = dropWhile isWhiteSpace str;
          (sign, s2) = (case s1 of
                          [] \<Rightarrow> (1, [])
                        | c # r \<Rightarrow> if c = CHR ''-'' then (- 1, r)
                                   else if c = CHR ''+'' then (1, r) else (1 :: int, s1));
          (radix, s3) = (case s2 of
                           a # b # r \<Rightarrow> if a = CHR ''0'' \<and> (b = CHR ''x'' \<or> b = CHR ''X'')
                                         then (16, r) else (10 :: nat, s2)
                         | _ \<Rightarrow> (10, s2));
          ds = takeWhile (isDigitOf radix) s3
      in if ds = [] then NaN else Num (sign * int (digitsValue radix ds)))"

text \<open>
  The module's initialisers: \<open>hiScore\<close> is read from the store
  (\<open>getItem('hiScore') || '0'\<close>, where the empty string counts as absent); the
  discovery set is not read.
\<close>

definition initialGame :: "random \<Rightarrow> (string \<rightharpoonup> string) \<Rightarrow> Game" where
  "initialGame rnd store =
     \<lparr>bodies = (\<lambda>_. Bodies_rectangle 0 0), world = [], nextId = 0, score = 0,
      hiScore = parseInt (case store ''hiScore'' of
                            None \<Rightarrow> ''0''
                          | Some v \<Rightarrow> if v = [] then ''0'' else v),
      discoveredLevels = [], currentLevel = 1, nextLevel = 1, dropX = 0,
      isCoolingDown = False, isGameOver = False, deadLineViolatedStartTime = None,
      flashes = [], scorePops = [], blackHoleEffects = [], mergeLockedBodies = {},
      lastSeTime = 0, audioReady = False,
      planetBag = fst (new_PlanetBag rnd),
      localStorage = store, height = 0, clientWidth = 0,
      ground = None, leftWall = None, rightWall = None\<rparr>"

text \<open>
  \<open>init\<close>, run at \<open>window.onload\<close>: \<open>w\<close> and \<open>h\<close> are the size of the container; the
  random values left after the construction of the bag go to the two pulls.
\<close>

definition init :: "random \<Rightarrow> (string \<rightharpoonup> string) \<Rightarrow> real \<Rightarrow> real \<Rightarrow> error + Game" where
  "init rnd store w h =
     (let s0 = initialGame rnd store;
          s1 = rebuildBounds w h (s0\<lparr>dropX := w / 2, height := h, clientWidth := w\<rparr>);
          (v1, bag1, rnd1) = pull (snd (new_PlanetBag rnd)) (planetBag s1);
          (v2, bag2, rnd2) = pull rnd1 bag1
      in case v1 of
           None \<Rightarrow> Inl TypeError
         | Some nl \<Rightarrow>
             (case v2 of
                None \<Rightarrow> Inl TypeError
              | Some cl \<Rightarrow> Inr (s1\<lparr>planetBag := bag2, nextLevel := nl, currentLevel := cl\<rparr>)))"

text \<open>
  The pointer handlers. \<open>running\<close> says whether the audio context runs after
  \<open>initAudio\<close>.
\<close>

definition pointerdown :: "real \<Rightarrow> bool \<Rightarrow> random \<Rightarrow> Game \<Rightarrow> error + Game" where
  "pointerdown x running rnd s =
     (if isGameOver s then resetGame rnd s
      else updateDropX x (s\<lparr>audioReady := running\<rparr>))"

definition pointermove :: "real \<Rightarrow> Game \<Rightarrow> error + Game" where
  "pointermove x s = (if isGameOver s then Inr s else updateDropX x s)"

definition pointerup :: "real \<Rightarrow> random \<Rightarrow> Game \<Rightarrow> error + Game" where
  "pointerup x rnd s =
     (if isGameOver s \<or> isCoolingDown s then Inr s
      else case updateDropX x s of
             Inl e \<Rightarrow> Inl e
           | Inr s' \<Rightarrow> dropPlanet rnd s')"

text \<open>
  Between two handlers the engine moves the bodies: it changes positions and
  velocities only.
\<close>

definition moved :: "Body \<Rightarrow> Body \<Rightarrow> bool" where
  "moved b b' = (isStatic b' = isStatic b \<and> planet b' = planet b
                 \<and> dropSePlayed b' = dropSePlayed b \<and> circleRadius b' = circleRadius b)"

text \<open>
  The sessions the program can be in: started by \<open>init\<close>, then any sequence of
  handler runs that end without an exception, with collision pairs among the bodies
  the engine has made.
\<close>

inductive reachable :: "Game \<Rightarrow> bool" where
  reach_init: "valid_random rnd \<Longrightarrow> init rnd store w h = Inr s \<Longrightarrow> reachable s"
| reach_engine: "reachable s \<Longrightarrow> (\<And>i. moved (bodies s i) (bs i)) \<Longrightarrow> reachable (s\<lparr>bodies := bs\<rparr>)"
| reach_collision: "reachable s \<Longrightarrow> (\<And>a b. (a, b) \<in> set prs \<Longrightarrow> a < nextId s \<and> b < nextId s)
      \<Longrightarrow> collisionStart now s prs = Inr s' \<Longrightarrow> reachable s'"
| reach_afterUpdate: "reachable s \<Longrightarrow> reachable (afterUpdate now s)"
| reach_afterRender: "reachable s \<Longrightarrow> reachable (afterRender now s)"
| reach_pointerdown: "reachable s \<Longrightarrow> valid_random rnd \<Longrightarrow> pointerdown x running rnd s = Inr s'
      \<Longrightarrow> reachable s'"
| reach_pointermove: "reachable s \<Longrightarrow> pointermove x s = Inr s' \<Longrightarrow> reachable s'"
| reach_pointerup: "reachable s \<Longrightarrow> valid_random rnd \<Longrightarrow> pointerup x rnd s = Inr s' \<Longrightarrow> reachable s'"
| reach_cooldown: "reachable s \<Longrightarrow> reachable (cooldownElapsed s)"
| reach_resize: "reachable s \<Longrightarrow> handleResize w h s = Inr s' \<Longrightarrow> reachable s'"

section \<open>Notions used to state the properties\<close>

text \<open>
  \<open>mergeLevel s (a, b)\<close> is the common level of the pair when both bodies are planets
  of one level up to 11: the pairs for which the handler merges (below 11) or
  triggers the black hole (at 11), unless a body is locked.
\<close>

definition mergeLevel :: "Game \<Rightarrow> nat \<times> nat \<Rightarrow> int option" where
  "mergeLevel s pr =
     (case planet (bodies s (fst pr)) of
        None \<Rightarrow> None
      | Some la \<Rightarrow>
          (case planet (bodies s (snd pr)) of
             None \<Rightarrow> None
           | Some lb \<Rightarrow> if la = lb \<and> la \<le> 11 then Some la else None))"

text \<open>
  \<open>levels_ok\<close>: the current level, the next level and every level waiting in the bag
  are candidate levels.
\<close>

definition levels_ok :: "Game \<Rightarrow> bool" where
  "levels_ok s = (currentLevel s \<in> set NEXT_CANDIDATES \<and> nextLevel s \<in> set NEXT_CANDIDATES
                  \<and> set (items (planetBag s)) \<subseteq> set NEXT_CANDIDATES)"

text \<open>The decimal digits.\<close>

definition decimal :: "char \<Rightarrow> bool" where
  "decimal c = (\<exists>k < 10. c = ''0123456789'' ! k)"

text \<open>
  A history of steps, for the deadline: at each step the engine has moved the bodies
  and changed the world (a snapshot gives the clock reading, the bodies and the
  world), and the \<open>afterUpdate\<close> handler runs. \<open>violating s st\<close> says that the loop of
  \<open>checkDeadline\<close> finds a violating body in the snapshot \<open>st\<close>, for the board height of
  \<open>s\<close>.
\<close>

type_synonym snapshot = "real \<times> (nat \<Rightarrow> Body) \<times> nat list"

fun deadlineRun :: "Game \<Rightarrow> snapshot list \<Rightarrow> Game" where
  "deadlineRun s [] = s"
| "deadlineRun s ((now, bs, w) # rest) =
     deadlineRun (afterUpdate now (s\<lparr>bodies := bs, world := w\<rparr>)) rest"

definition violating :: "Game \<Rightarrow> snapshot \<Rightarrow> bool" where
  "violating s st = deadlineViolation (s\<lparr>bodies := fst (snd st), world := snd (snd st)\<rparr>)"

text \<open>
  For the order of the pairs of a step. Two pairs are \<open>sharing\<close> when they have a
  body in common. With the lock set \<open>L\<close>, the handler \<open>acts\<close> on a pair of two planets
  of one level when neither body is in \<open>L\<close>, and then locks both; \<open>acting s L prs\<close>
  lists the pairs of \<open>prs\<close> the handler acts on, taken in order from the lock set
  \<open>L\<close>. A set of pairs is \<open>grouped\<close> when sharing a body is transitive among its pairs
  of two planets of one level: these pairs fall into groups, two pairs of one group
  share a body and pairs of different groups share none.
\<close>

definition sharing :: "nat \<times> nat \<Rightarrow> nat \<times> nat \<Rightarrow> bool" where
  "sharing p q = (fst p = fst q \<or> fst p = snd q \<or> snd p = fst q \<or> snd p = snd q)"

definition acts :: "Game \<Rightarrow> nat set \<Rightarrow> nat \<times> nat \<Rightarrow> bool" where
  "acts s L pr = (mergeLevel s pr \<noteq> None \<and> fst pr \<notin> L \<and> snd pr \<notin> L)"

definition lock :: "nat set \<Rightarrow> nat \<times> nat \<Rightarrow> nat set" where
  "lock L pr = insert (snd pr) (insert (fst pr) L)"

fun acting :: "Game \<Rightarrow> nat set \<Rightarrow> (nat \<times> nat) list \<Rightarrow> (nat \<times> nat) list" where
  "acting s L [] = []"
| "acting s L (pr # prs) =
     (if acts s L pr then pr # acting s (lock L pr) prs else acting s L prs)"

definition grouped :: "Game \<Rightarrow> (nat \<times> nat) set \<Rightarrow> bool" where
  "grouped s S = (\<forall>p \<in> S. \<forall>q \<in> S. \<forall>r \<in> S.
      mergeLevel s p \<noteq> None \<and> mergeLevel s q \<noteq> None \<and> mergeLevel s r \<noteq> None
      \<and> sharing p q \<and> sharing q r \<longrightarrow> sharing p r)"

text \<open>
  \<open>pairGain\<close>, \<open>pairPops\<close>, \<open>pairFlashes\<close> and \<open>pairHoles\<close> say what a pair adds to the
  score and to the three effect queues when the handler acts on it, and \<open>levelGain\<close>
  is the gain as a function of the level; \<open>agree s t\<close> says that \<open>t\<close> still shows the
  bodies that existed in \<open>s\<close> with their levels and positions.
\<close>

definition midpoint_x :: "Game \<Rightarrow> nat \<times> nat \<Rightarrow> real" where
  "midpoint_x s pr = (position_x (bodies s (fst pr)) + position_x (bodies s (snd pr))) / 2"

definition midpoint_y :: "Game \<Rightarrow> nat \<times> nat \<Rightarrow> real" where
  "midpoint_y s pr = (position_y (bodies s (fst pr)) + position_y (bodies s (snd pr))) / 2"

definition pairGain :: "Game \<Rightarrow> nat \<times> nat \<Rightarrow> int" where
  "pairGain s pr =
     (case mergeLevel s pr of
        None \<Rightarrow> 0
      | Some lv \<Rightarrow> if lv = 11 then BLACK_HOLE_BONUS
                   else (case PLANETS (lv + 1) of None \<Rightarrow> 0 | Some d \<Rightarrow> p_score d))"

definition pairPops :: "real \<Rightarrow> Game \<Rightarrow> nat \<times> nat \<Rightarrow> ScorePop list" where
  "pairPops now s pr =
     (case mergeLevel s pr of
        None \<Rightarrow> []
      | Some lv \<Rightarrow> [\<lparr>pop_x = midpoint_x s pr, pop_y = midpoint_y s pr,
                      pop_score = pairGain s pr, pop_startTime = now\<rparr>])"

definition pairFlashes :: "real \<Rightarrow> Game \<Rightarrow> nat \<times> nat \<Rightarrow> Flash list" where
  "pairFlashes now s pr =
     (case mergeLevel s pr of
        None \<Rightarrow> []
      | Some lv \<Rightarrow> if lv = 11 then []
                   else [\<lparr>flash_x = midpoint_x s pr, flash_y = midpoint_y s pr, flash_startTime = now\<rparr>])"

definition pairHoles :: "real \<Rightarrow> Game \<Rightarrow> nat \<times> nat \<Rightarrow> BlackHoleEffect list" where
  "pairHoles now s pr =
     (case mergeLevel s pr of
        None \<Rightarrow> []
      | Some lv \<Rightarrow> if lv = 11
                   then [\<lparr>bh_x = midpoint_x s pr, bh_y = midpoint_y s pr, bh_startTime = now\<rparr>]
                   else [])"

definition agree :: "Game \<Rightarrow> Game \<Rightarrow> bool" where
  "agree s t = (nextId s \<le> nextId t
     \<and> (\<forall>i < nextId s. planet (bodies t i) = planet (bodies s i)
            \<and> position_x (bodies t i) = position_x (bodies s i)
            \<and> position_y (bodies t i) = position_y (bodies s i)))"

definition levelGain :: "int option \<Rightarrow> int" where
  "levelGain l = (case l of None \<Rightarrow> 0
     | Some lv \<Rightarrow> if lv = 11 then BLACK_HOLE_BONUS
                  else (case PLANETS (lv + 1) of None \<Rightarrow> 0 | Some d \<Rightarrow> p_score d))"

section \<open>Example sessions\<close>

text \<open>
  Concrete sessions for evaluating the model: three walls with the ids 0, 1 and 2, and
  planets at rest from id 3 on.
\<close>

definition wall :: Body where
  "wall = \<lparr>isStatic = True, planet = None, dropSePlayed = False,
           position_x = 0, position_y = 0, velocity_x = 0, velocity_y = 0, circleRadius = 0\<rparr>"

definition piece :: "int \<Rightarrow> real \<Rightarrow> real \<Rightarrow> Body" where
  "piece lv x y = Bodies_circle x y 30 lv False"

definition example_session :: "(nat \<Rightarrow> Body) \<Rightarrow> nat list \<Rightarrow> nat \<Rightarrow> Game" where
  "example_session bs w n =
     \<lparr>bodies = bs, world = w, nextId = n, score = 0, hiScore = Num 0,
      discoveredLevels = [], currentLevel = 1, nextLevel = 1, dropX = 200,
      isCoolingDown = False, isGameOver = False, deadLineViolatedStartTime = None,
      flashes = [], scorePops = [], blackHoleEffects = [], mergeLockedBodies = {},
      lastSeTime = 0, audioReady = False,
      planetBag = \<lparr>items = [], lastItem = None\<rparr>,
      localStorage = Map.empty, height = 600, clientWidth = 400,
      ground = Some 0, leftWall = Some 1, rightWall = Some 2\<rparr>"

definition two_threes :: Game where
  "two_threes = example_session ((\<lambda>_. wall)(3 := piece 3 100 400, 4 := piece 3 140 420))
     [0, 1, 2, 3, 4] 5"

definition four_threes :: Game where
  "four_threes = example_session
     ((\<lambda>_. wall)(3 := piece 3 100 400, 4 := piece 3 160 400, 5 := piece 3 220 400, 6 := piece 3 280 400))
     [0, 1, 2, 3, 4, 5, 6] 7"

definition suns_and_threes :: Game where
  "suns_and_threes = example_session
     ((\<lambda>_. wall)(3 := piece 11 100 400, 4 := piece 11 300 400, 5 := piece 3 100 100, 6 := piece 3 140 120))
     [0, 1, 2, 3, 4, 5, 6] 7"

definition game_over_board :: Game where
  "game_over_board = (example_session ((\<lambda>_. wall)(3 := piece 2 100 90)) [0, 1, 2, 3] 4)
     \<lparr>score := 30, hiScore := Num 120, isGameOver := True,
      flashes := [\<lparr>flash_x = 100, flash_y = 90, flash_startTime = 5000\<rparr>],
      scorePops := [\<lparr>pop_x = 100, pop_y = 90, pop_score = 20, pop_startTime = 5000\<rparr>]\<rparr>"

definition high_board :: "nat \<Rightarrow> Body" where
  "high_board = (\<lambda>_. wall)(3 := piece 2 100 130)"

definition low_board :: "nat \<Rightarrow> Body" where
  "low_board = (\<lambda>_. wall)(3 := piece 2 100 500)"

definition playing :: Game where
  "playing = example_session low_board [0, 1, 2, 3] 4"

section \<open>Basic facts\<close>

lemmas eval_defs = collisionPair_def boundaryContact_def handleMerge_def triggerBlackHole_def
  discoverLevel_def addScore_def
  Let_def Bodies_circle_def Composite_add_def Composite_remove_def playSe_def PLANETS_def
  BLACK_HOLE_BONUS_def example_session_def piece_def wall_def


lemma PLANETS_defined:
  assumes "1 \<le> lv" "lv \<le> 11"
  shows "\<exists>d. PLANETS lv = Some d \<and> p_level d = lv \<and> 0 < p_score d"
proof -
  from assms have "lv = 1 \<or> lv = 2 \<or> lv = 3 \<or> lv = 4 \<or> lv = 5 \<or> lv = 6 \<or> lv = 7
      \<or> lv = 8 \<or> lv = 9 \<or> lv = 10 \<or> lv = 11" by arith
  then show ?thesis by (auto simp: PLANETS_def)
qed

lemma mset_Composite_remove: "mset (Composite_remove w hs) = mset w - mset hs"
  unfolding Composite_remove_def
  by (induction hs arbitrary: w) simp_all

lemma length_Composite_remove2:
  assumes "a \<in> set w" "b \<in> set w" "a \<noteq> b"
  shows "length (Composite_remove w [a, b]) + 2 = length w"
proof -
  have "b \<in> set (remove1 a w)" using assms by simp
  then have "length (remove1 b (remove1 a w)) = length (remove1 a w) - 1"
    by (simp add: length_remove1)
  moreover have "length (remove1 a w) = length w - 1"
    using assms by (simp add: length_remove1)
  moreover have "2 \<le> length w"
  proof -
    have "card {a, b} \<le> card (set w)" using assms by (intro card_mono) auto
    then show ?thesis using assms card_length[of w] by simp
  qed
  ultimately show ?thesis by (simp add: Composite_remove_def)
qed

lemma boundaryContact_nonstatic:
  "\<not> isStatic (bodies s a) \<Longrightarrow> \<not> isStatic (bodies s b) \<Longrightarrow> boundaryContact now a b s = s"
  by (simp add: boundaryContact_def)

lemma playSe_fields [simp]:
  "bodies (playSe f w v now s) = bodies s"
  "world (playSe f w v now s) = world s"
  "nextId (playSe f w v now s) = nextId s"
  "score (playSe f w v now s) = score s"
  "hiScore (playSe f w v now s) = hiScore s"
  "discoveredLevels (playSe f w v now s) = discoveredLevels s"
  "currentLevel (playSe f w v now s) = currentLevel s"
  "nextLevel (playSe f w v now s) = nextLevel s"
  "planetBag (playSe f w v now s) = planetBag s"
  "isGameOver (playSe f w v now s) = isGameOver s"
  "flashes (playSe f w v now s) = flashes s"
  "scorePops (playSe f w v now s) = scorePops s"
  "blackHoleEffects (playSe f w v now s) = blackHoleEffects s"
  "mergeLockedBodies (playSe f w v now s) = mergeLockedBodies s"
  by (simp_all add: playSe_def)

lemma discoverLevel_fields [simp]:
  "bodies (discoverLevel lv s) = bodies s"
  "world (discoverLevel lv s) = world s"
  "nextId (discoverLevel lv s) = nextId s"
  "score (discoverLevel lv s) = score s"
  "hiScore (discoverLevel lv s) = hiScore s"
  "discoveredLevels (discoverLevel lv s) =
     (if lv \<in> set (discoveredLevels s) then discoveredLevels s else discoveredLevels s @ [lv])"
  "currentLevel (discoverLevel lv s) = currentLevel s"
  "nextLevel (discoverLevel lv s) = nextLevel s"
  "planetBag (discoverLevel lv s) = planetBag s"
  "isGameOver (discoverLevel lv s) = isGameOver s"
  "flashes (discoverLevel lv s) = flashes s"
  "scorePops (discoverLevel lv s) = scorePops s"
  "blackHoleEffects (discoverLevel lv s) = blackHoleEffects s"
  "mergeLockedBodies (discoverLevel lv s) = mergeLockedBodies s"
  by (simp_all add: discoverLevel_def)

lemma addScore_fields [simp]:
  "bodies (addScore pts s) = bodies s"
  "world (addScore pts s) = world s"
  "nextId (addScore pts s) = nextId s"
  "score (addScore pts s) = score s + pts"
  "hiScore (addScore pts s) = (if gt (score s + pts) (hiScore s) then Num (score s + pts) else hiScore s)"
  "discoveredLevels (addScore pts s) = discoveredLevels s"
  "currentLevel (addScore pts s) = currentLevel s"
  "nextLevel (addScore pts s) = nextLevel s"
  "planetBag (addScore pts s) = planetBag s"
  "isGameOver (addScore pts s) = isGameOver s"
  "flashes (addScore pts s) = flashes s"
  "scorePops (addScore pts s) = scorePops s"
  "blackHoleEffects (addScore pts s) = blackHoleEffects s"
  "mergeLockedBodies (addScore pts s) = mergeLockedBodies s"
  by (simp_all add: addScore_def Let_def)

lemma boundaryContact_fields [simp]:
  "world (boundaryContact now a b s) = world s"
  "nextId (boundaryContact now a b s) = nextId s"
  "score (boundaryContact now a b s) = score s"
  "hiScore (boundaryContact now a b s) = hiScore s"
  "discoveredLevels (boundaryContact now a b s) = discoveredLevels s"
  "currentLevel (boundaryContact now a b s) = currentLevel s"
  "nextLevel (boundaryContact now a b s) = nextLevel s"
  "planetBag (boundaryContact now a b s) = planetBag s"
  "isGameOver (boundaryContact now a b s) = isGameOver s"
  "flashes (boundaryContact now a b s) = flashes s"
  "scorePops (boundaryContact now a b s) = scorePops s"
  "blackHoleEffects (boundaryContact now a b s) = blackHoleEffects s"
  "mergeLockedBodies (boundaryContact now a b s) = mergeLockedBodies s"
  by (simp_all add: boundaryContact_def Let_def split: option.splits)

lemma boundaryContact_bodies [simp]:
  "isStatic (bodies (boundaryContact now a b s) i) = isStatic (bodies s i)"
  "planet (bodies (boundaryContact now a b s) i) = planet (bodies s i)"
  "position_x (bodies (boundaryContact now a b s) i) = position_x (bodies s i)"
  "position_y (bodies (boundaryContact now a b s) i) = position_y (bodies s i)"
  by (simp_all add: boundaryContact_def Let_def split: option.splits)

lemma triggerBlackHole_fields [simp]:
  "bodies (triggerBlackHole now x y s) = bodies s"
  "nextId (triggerBlackHole now x y s) = nextId s"
  "score (triggerBlackHole now x y s) = score s + BLACK_HOLE_BONUS"
  "hiScore (triggerBlackHole now x y s) =
     (if gt (score s + BLACK_HOLE_BONUS) (hiScore s) then Num (score s + BLACK_HOLE_BONUS) else hiScore s)"
  "discoveredLevels (triggerBlackHole now x y s) = discoveredLevels s"
  "currentLevel (triggerBlackHole now x y s) = currentLevel s"
  "nextLevel (triggerBlackHole now x y s) = nextLevel s"
  "planetBag (triggerBlackHole now x y s) = planetBag s"
  "isGameOver (triggerBlackHole now x y s) = isGameOver s"
  "flashes (triggerBlackHole now x y s) = flashes s"
  "scorePops (triggerBlackHole now x y s) = scorePops s @
     [\<lparr>pop_x = x, pop_y = y, pop_score = BLACK_HOLE_BONUS, pop_startTime = now\<rparr>]"
  "blackHoleEffects (triggerBlackHole now x y s) = blackHoleEffects s @
     [\<lparr>bh_x = x, bh_y = y, bh_startTime = now\<rparr>]"
  "mergeLockedBodies (triggerBlackHole now x y s) = mergeLockedBodies s"
  by (simp_all add: triggerBlackHole_def Let_def)

lemma triggerBlackHole_world:
  "world (triggerBlackHole now x y s) = Composite_remove (world s)
     (filter (\<lambda>i. \<not> isStatic (bodies s i) \<and> planet (bodies s i) \<noteq> None) (world s))"
  by (simp add: triggerBlackHole_def Let_def)

lemma handleMerge_Inr:
  assumes "planet (bodies s a) = Some lv" "PLANETS (lv + 1) = Some d"
  shows "handleMerge now a b s = Inr (projr (handleMerge now a b s))"
  using assms by (simp add: handleMerge_def Let_def)

lemma handleMerge_fields:
  assumes "planet (bodies s a) = Some lv" "PLANETS (lv + 1) = Some d"
  shows "world (projr (handleMerge now a b s)) = Composite_remove (world s) [a, b] @ [nextId s]"
    and "bodies (projr (handleMerge now a b s)) = (bodies s)(nextId s := Bodies_circle
                ((position_x (bodies s a) + position_x (bodies s b)) / 2)
                ((position_y (bodies s a) + position_y (bodies s b)) / 2)
                (p_radius d) (p_level d) True)"
    and "nextId (projr (handleMerge now a b s)) = Suc (nextId s)"
    and "score (projr (handleMerge now a b s)) = score s + p_score d"
    and "hiScore (projr (handleMerge now a b s)) =
           (if gt (score s + p_score d) (hiScore s) then Num (score s + p_score d) else hiScore s)"
    and "discoveredLevels (projr (handleMerge now a b s)) =
           (if lv + 1 \<in> set (discoveredLevels s) then discoveredLevels s
            else discoveredLevels s @ [lv + 1])"
    and "flashes (projr (handleMerge now a b s)) = flashes s @
                [\<lparr>flash_x = (position_x (bodies s a) + position_x (bodies s b)) / 2,
                  flash_y = (position_y (bodies s a) + position_y (bodies s b)) / 2,
                  flash_startTime = now\<rparr>]"
    and "scorePops (projr (handleMerge now a b s)) = scorePops s @
                [\<lparr>pop_x = (position_x (bodies s a) + position_x (bodies s b)) / 2,
                  pop_y = (position_y (bodies s a) + position_y (bodies s b)) / 2,
                  pop_score = p_score d, pop_startTime = now\<rparr>]"
    and "blackHoleEffects (projr (handleMerge now a b s)) = blackHoleEffects s"
    and "mergeLockedBodies (projr (handleMerge now a b s)) = mergeLockedBodies s"
    and "currentLevel (projr (handleMerge now a b s)) = currentLevel s"
    and "nextLevel (projr (handleMerge now a b s)) = nextLevel s"
    and "planetBag (projr (handleMerge now a b s)) = planetBag s"
    and "isGameOver (projr (handleMerge now a b s)) = isGameOver s"
  using assms by (simp_all add: handleMerge_def Let_def Composite_add_def)


section \<open>Merging two planets of one level\<close>

text \<open>
  Claim C1. Two live planets \<open>a\<close> and \<open>b\<close> of the same level \<open>L\<close>, \<open>1 \<le> L < 11\<close>, collide
  and neither is locked in this step. Then the handler succeeds; the world loses
  exactly \<open>a\<close> and \<open>b\<close> and gains exactly one body, the new one (so it has one body
  less than before); the new body is a non-static planet of level \<open>L + 1\<close> placed at
  the midpoint of the positions of \<open>a\<close> and \<open>b\<close>, with its drop-sound flag already
  set; no other body object changes; and the score grows by exactly the score value
  of level \<open>L + 1\<close> in the planet table.
\<close>

theorem merge_pair:
  assumes la: "planet (bodies s a) = Some L" and lb: "planet (bodies s b) = Some L"
    and L: "1 \<le> L" "L < 11"
    and unlocked: "a \<notin> mergeLockedBodies s" "b \<notin> mergeLockedBodies s"
    and dyn: "\<not> isStatic (bodies s a)" "\<not> isStatic (bodies s b)"
    and live: "a \<in> set (world s)" "b \<in> set (world s)" "a \<noteq> b"
  shows "\<exists>s' d. collisionPair now s (a, b) = Inr s' \<and> PLANETS (L + 1) = Some d
     \<and> mset (world s') = mset (world s) - {#a, b#} + {#nextId s#}
     \<and> length (world s') + 1 = length (world s)
     \<and> bodies s' = (bodies s)(nextId s :=
          \<lparr>isStatic = False, planet = Some (L + 1), dropSePlayed = True,
           position_x = (position_x (bodies s a) + position_x (bodies s b)) / 2,
           position_y = (position_y (bodies s a) + position_y (bodies s b)) / 2,
           velocity_x = 0, velocity_y = 0, circleRadius = p_radius d\<rparr>)
     \<and> nextId s' = Suc (nextId s)
     \<and> score s' = score s + p_score d"
proof -
  from L obtain d where d: "PLANETS (L + 1) = Some d" "p_level d = L + 1"
    using PLANETS_defined[of "L + 1"] by auto
  have bc: "boundaryContact now a b s = s"
    using dyn by (rule boundaryContact_nonstatic)
  have "L \<noteq> 11" using L by simp
  have len: "length (Composite_remove (world s) [a, b]) + 2 = length (world s)"
    using live by (rule length_Composite_remove2)
  let ?t = "s\<lparr>mergeLockedBodies := insert b (insert a (mergeLockedBodies s))\<rparr>"
  have pa: "planet (bodies ?t a) = Some L" using la by simp
  have run: "collisionPair now s (a, b) = handleMerge now a b ?t"
    using la lb L unlocked \<open>L \<noteq> 11\<close> by (simp add: collisionPair_def bc Let_def)
  note f = handleMerge_fields[OF pa d(1), of now b]
  show ?thesis
  proof (intro exI conjI)
    show "collisionPair now s (a, b) = Inr (projr (handleMerge now a b ?t))"
      using run handleMerge_Inr[OF pa d(1), of now b] by simp
    show "PLANETS (L + 1) = Some d" by (rule d(1))
    show "mset (world (projr (handleMerge now a b ?t))) = mset (world s) - {#a, b#} + {#nextId s#}"
      by (simp add: f(1) mset_Composite_remove)
    show "length (world (projr (handleMerge now a b ?t))) + 1 = length (world s)"
      using len by (simp add: f(1))
    show "bodies (projr (handleMerge now a b ?t)) = (bodies s)(nextId s :=
          \<lparr>isStatic = False, planet = Some (L + 1), dropSePlayed = True,
           position_x = (position_x (bodies s a) + position_x (bodies s b)) / 2,
           position_y = (position_y (bodies s a) + position_y (bodies s b)) / 2,
           velocity_x = 0, velocity_y = 0, circleRadius = p_radius d\<rparr>)"
      by (simp add: f(2) d(2) Bodies_circle_def)
    show "nextId (projr (handleMerge now a b ?t)) = Suc (nextId s)"
      by (simp add: f(3))
    show "score (projr (handleMerge now a b ?t)) = score s + p_score d"
      by (simp add: f(4))
  qed
qed

theorem merge_pair_witness:
  "\<exists>s' d. collisionPair 0 two_threes (3, 4) = Inr s' \<and> PLANETS 4 = Some d
     \<and> mset (world s') = {#0, 1, 2, 5#}
     \<and> length (world s') = 4
     \<and> bodies s' 5 =
          \<lparr>isStatic = False, planet = Some 4, dropSePlayed = True,
           position_x = 120, position_y = 410,
           velocity_x = 0, velocity_y = 0, circleRadius = 39\<rparr>
     \<and> nextId s' = 6
     \<and> score s' = 80"
proof -
  have "PLANETS 4 = Some \<lparr>p_level = 4, p_radius = 39, p_mass = 19 / 10, p_score = 80\<rparr>"
    by (simp add: PLANETS_def)
  then show ?thesis
    using merge_pair[of two_threes 3 3 4 0]
    by (auto simp: two_threes_def example_session_def piece_def wall_def Bodies_circle_def)
qed

section \<open>The handler, pair by pair\<close>

lemma collisionPair_none:
  "mergeLevel s (a, b) = None \<Longrightarrow> collisionPair now s (a, b) = Inr (boundaryContact now a b s)"
  by (auto simp: collisionPair_def mergeLevel_def Let_def split: option.splits if_splits)

lemma collisionPair_locked_any:
  "a \<in> mergeLockedBodies s \<or> b \<in> mergeLockedBodies s
   \<Longrightarrow> collisionPair now s (a, b) = Inr (boundaryContact now a b s)"
  by (auto simp: collisionPair_def Let_def split: option.splits)

lemma collisionPair_mega:
  assumes "mergeLevel s (a, b) = Some 11"
    and "a \<notin> mergeLockedBodies s" "b \<notin> mergeLockedBodies s"
  shows "collisionPair now s (a, b) = Inr (triggerBlackHole now
           ((position_x (bodies s a) + position_x (bodies s b)) / 2)
           ((position_y (bodies s a) + position_y (bodies s b)) / 2)
           ((boundaryContact now a b s)\<lparr>mergeLockedBodies := insert b (insert a (mergeLockedBodies s))\<rparr>))"
  using assms
  by (auto simp: collisionPair_def mergeLevel_def Let_def split: option.splits if_splits)

lemma collisionPair_merge:
  assumes "mergeLevel s (a, b) = Some lv" "lv < 11"
    and "a \<notin> mergeLockedBodies s" "b \<notin> mergeLockedBodies s"
  shows "collisionPair now s (a, b) = handleMerge now a b
           ((boundaryContact now a b s)\<lparr>mergeLockedBodies := insert b (insert a (mergeLockedBodies s))\<rparr>)"
  using assms
  by (auto simp: collisionPair_def mergeLevel_def Let_def split: option.splits if_splits)

lemma handleMerge_locks:
  assumes "handleMerge now a b s = Inr s'"
  shows "mergeLockedBodies s' = mergeLockedBodies s"
proof -
  from assms obtain lv d where "planet (bodies s a) = Some lv" "PLANETS (lv + 1) = Some d"
    by (auto simp: handleMerge_def Let_def split: option.splits)
  from handleMerge_fields(10)[OF this, of now b] assms show ?thesis by simp
qed

lemma collisionPair_locked:
  assumes "a \<in> mergeLockedBodies s \<or> b \<in> mergeLockedBodies s"
    and "\<not> isStatic (bodies s a)" "\<not> isStatic (bodies s b)"
  shows "collisionPair now s (a, b) = Inr s"
  using assms by (simp add: collisionPair_locked_any boundaryContact_nonstatic)

lemma collisionPair_locks:
  assumes "collisionPair now s (a, b) = Inr s'"
  shows "mergeLockedBodies s' = mergeLockedBodies s
       \<or> mergeLockedBodies s' = insert b (insert a (mergeLockedBodies s))"
proof (cases "mergeLevel s (a, b)")
  case None
  then show ?thesis using assms by (auto simp: collisionPair_none)
next
  case (Some lv)
  show ?thesis
  proof (cases "a \<in> mergeLockedBodies s \<or> b \<in> mergeLockedBodies s")
    case True
    then show ?thesis using assms collisionPair_locked_any[OF True, of now] by auto
  next
    case False
    have "lv \<le> 11" using Some by (auto simp: mergeLevel_def split: option.splits if_splits)
    show ?thesis
    proof (cases "lv = 11")
      case True
      then show ?thesis using assms Some False collisionPair_mega[of s a b now] by auto
    next
      case lt: False
      then have "lv < 11" using \<open>lv \<le> 11\<close> by simp
      then have "handleMerge now a b
           ((boundaryContact now a b s)\<lparr>mergeLockedBodies := insert b (insert a (mergeLockedBodies s))\<rparr>) = Inr s'"
        using assms Some False collisionPair_merge[of s a b lv now] by auto
      from handleMerge_locks[OF this] show ?thesis by simp
    qed
  qed
qed

lemma collisionPair_locks_mono:
  assumes "collisionPair now s pr = Inr s'"
  shows "mergeLockedBodies s \<subseteq> mergeLockedBodies s'"
  using collisionPair_locks[of now s "fst pr" "snd pr" s'] assms by auto

lemma collisionPair_outcome_locks:
  assumes run: "collisionPair now s (a, b) = Inr s'" and ne: "s' \<noteq> s"
    and dyn: "\<not> isStatic (bodies s a)" "\<not> isStatic (bodies s b)"
  shows "a \<in> mergeLockedBodies s' \<and> b \<in> mergeLockedBodies s'"
proof -
  have bc: "boundaryContact now a b s = s" using dyn by (rule boundaryContact_nonstatic)
  have unlocked: "a \<notin> mergeLockedBodies s \<and> b \<notin> mergeLockedBodies s"
    using collisionPair_locked_any[of a s b now] run ne bc by auto
  have "mergeLevel s (a, b) \<noteq> None"
    using collisionPair_none[of s a b now] run ne bc by auto
  then obtain lv where lv: "mergeLevel s (a, b) = Some lv" by auto
  then have "lv \<le> 11" by (auto simp: mergeLevel_def split: option.splits if_splits)
  show ?thesis
  proof (cases "lv = 11")
    case True
    then show ?thesis using run lv unlocked collisionPair_mega[of s a b now] by auto
  next
    case False
    then have "lv < 11" using \<open>lv \<le> 11\<close> by simp
    then have "handleMerge now a b
         ((boundaryContact now a b s)\<lparr>mergeLockedBodies := insert b (insert a (mergeLockedBodies s))\<rparr>) = Inr s'"
      using run lv unlocked collisionPair_merge[of s a b lv now] by auto
    from handleMerge_locks[OF this] show ?thesis by simp
  qed
qed

lemma collisionStart_locks_mono:
  "collisionStart now s prs = Inr s' \<Longrightarrow> mergeLockedBodies s \<subseteq> mergeLockedBodies s'"
proof (induction prs arbitrary: s)
  case Nil
  then show ?case by simp
next
  case (Cons pr prs)
  then obtain s1 where s1: "collisionPair now s pr = Inr s1" "collisionStart now s1 prs = Inr s'"
    by (auto split: sum.splits)
  from collisionPair_locks_mono[OF s1(1)] Cons.IH[OF s1(2)] show ?case by blast
qed

lemma collisionStart_append:
  "collisionStart now s (xs @ ys) =
     (case collisionStart now s xs of Inl e \<Rightarrow> Inl e | Inr s' \<Rightarrow> collisionStart now s' ys)"
  by (induction xs arbitrary: s) (auto split: sum.splits)

lemma afterUpdate_clears: "mergeLockedBodies (afterUpdate now s) = {}"
  by (simp add: afterUpdate_def checkDeadline_def setGameOver_def split: option.splits)

section \<open>The per-step lock\<close>

text \<open>
  Claim C3. Within one step, \<open>s\<close> is the state before the pair list \<open>prs\<close>, \<open>si\<close> and
  \<open>sj\<close> are the states reached before the pairs number \<open>i\<close> and \<open>j\<close>, \<open>i < j\<close>. If the
  pair \<open>i\<close> had an outcome (it changed the state) and the pair \<open>j\<close> shares a body
  with it, the pair \<open>j\<close> changes nothing and raises no exception: a body takes part
  in at most one merge or black hole per step. More generally a pair with a locked
  body, met in any state \<open>t\<close>, leaves \<open>t\<close> as it is. And \<open>afterUpdate\<close> empties the
  lock set, whatever the state. The pairs are pairs of planets, which are never
  static; a contact with a wall is the business of the impact sound.
\<close>

theorem per_step_lock:
  assumes ij: "i < j" "j < length prs"
    and si: "collisionStart now s (take i prs) = Inr si"
    and outcome: "collisionPair now si (prs ! i) = Inr si'" "si' \<noteq> si"
    and sj: "collisionStart now s (take j prs) = Inr sj"
    and shared: "{fst (prs ! i), snd (prs ! i)} \<inter> {fst (prs ! j), snd (prs ! j)} \<noteq> {}"
    and dyn_i: "\<not> isStatic (bodies si (fst (prs ! i)))" "\<not> isStatic (bodies si (snd (prs ! i)))"
    and dyn_j: "\<not> isStatic (bodies sj (fst (prs ! j)))" "\<not> isStatic (bodies sj (snd (prs ! j)))"
    and locked: "a \<in> mergeLockedBodies t \<or> b \<in> mergeLockedBodies t"
  shows "collisionPair now sj (prs ! j) = Inr sj
       \<and> (\<exists>t'. collisionPair now' t (a, b) = Inr t'
             \<and> world t' = world t \<and> nextId t' = nextId t \<and> score t' = score t
             \<and> hiScore t' = hiScore t \<and> discoveredLevels t' = discoveredLevels t
             \<and> mergeLockedBodies t' = mergeLockedBodies t \<and> flashes t' = flashes t
             \<and> scorePops t' = scorePops t \<and> blackHoleEffects t' = blackHoleEffects t
             \<and> (\<not> isStatic (bodies t a) \<and> \<not> isStatic (bodies t b) \<longrightarrow> t' = t))
       \<and> mergeLockedBodies (afterUpdate now'' u) = {}"
proof -
  have locked_i: "fst (prs ! i) \<in> mergeLockedBodies si' \<and> snd (prs ! i) \<in> mergeLockedBodies si'"
    using collisionPair_outcome_locks[of now si "fst (prs ! i)" "snd (prs ! i)" si'] outcome dyn_i
    by simp
  have i_len: "i < length prs" using ij by simp
  have "take j prs = take (Suc i) prs @ drop (Suc i) (take j prs)"
    using ij by (metis Suc_leI append_take_drop_id min.absorb2 take_take min.commute)
  moreover have "take (Suc i) prs = take i prs @ [prs ! i]"
    using i_len by (simp add: take_Suc_conv_app_nth)
  ultimately have split: "take j prs = (take i prs @ [prs ! i]) @ drop (Suc i) (take j prs)"
    by simp
  have "collisionStart now s (take i prs @ [prs ! i]) = Inr si'"
    using si outcome(1) by (simp add: collisionStart_append)
  then have "collisionStart now si' (drop (Suc i) (take j prs)) = Inr sj"
    using sj by (subst (asm) split, subst (asm) collisionStart_append) simp
  then have "mergeLockedBodies si' \<subseteq> mergeLockedBodies sj"
    by (rule collisionStart_locks_mono)
  with locked_i shared have "fst (prs ! j) \<in> mergeLockedBodies sj \<or> snd (prs ! j) \<in> mergeLockedBodies sj"
    by auto
  then have "collisionPair now sj (fst (prs ! j), snd (prs ! j)) = Inr sj"
    using dyn_j by (rule collisionPair_locked)
  moreover have "\<exists>t'. collisionPair now' t (a, b) = Inr t'
             \<and> world t' = world t \<and> nextId t' = nextId t \<and> score t' = score t
             \<and> hiScore t' = hiScore t \<and> discoveredLevels t' = discoveredLevels t
             \<and> mergeLockedBodies t' = mergeLockedBodies t \<and> flashes t' = flashes t
             \<and> scorePops t' = scorePops t \<and> blackHoleEffects t' = blackHoleEffects t
             \<and> (\<not> isStatic (bodies t a) \<and> \<not> isStatic (bodies t b) \<longrightarrow> t' = t)"
    using collisionPair_locked_any[OF locked, of now']
    by (simp add: boundaryContact_nonstatic)
  ultimately show ?thesis by (simp add: afterUpdate_clears)
qed

theorem per_step_lock_witness:
  "\<exists>s1. collisionPair 0 four_threes (3, 4) = Inr s1 \<and> s1 \<noteq> four_threes
      \<and> collisionStart 0 four_threes [(3, 4)] = Inr s1
      \<and> collisionPair 0 s1 (4, 5) = Inr s1
      \<and> mergeLockedBodies (afterUpdate 0 s1) = {}"
proof -
  obtain s1 where s1: "collisionPair 0 four_threes (3, 4) = Inr s1" "score s1 = 80"
      "mergeLockedBodies s1 = {3, 4}" "bodies s1 4 = piece 3 160 400" "bodies s1 5 = piece 3 220 400"
    by (simp add: four_threes_def eval_defs insert_commute)
  have ne: "s1 \<noteq> four_threes"
    using s1(2) by (auto simp: four_threes_def example_session_def)
  have "collisionPair 0 s1 ([(3, 4), (4, 5)] ! 1) = Inr s1
       \<and> (\<exists>t'. collisionPair 0 s1 (4, 5) = Inr t'
             \<and> world t' = world s1 \<and> nextId t' = nextId s1 \<and> score t' = score s1
             \<and> hiScore t' = hiScore s1 \<and> discoveredLevels t' = discoveredLevels s1
             \<and> mergeLockedBodies t' = mergeLockedBodies s1 \<and> flashes t' = flashes s1
             \<and> scorePops t' = scorePops s1 \<and> blackHoleEffects t' = blackHoleEffects s1
             \<and> (\<not> isStatic (bodies s1 4) \<and> \<not> isStatic (bodies s1 5) \<longrightarrow> t' = s1))
       \<and> mergeLockedBodies (afterUpdate 0 s1) = {}"
    using s1 ne
    by (intro per_step_lock[of 0 1 "[(3, 4), (4, 5)]" 0 four_threes four_threes s1 s1 4 s1 5])
       (simp_all add: four_threes_def example_session_def piece_def wall_def Bodies_circle_def)
  then show ?thesis using s1 ne by (auto simp: piece_def Bodies_circle_def)
qed

section \<open>The black hole\<close>

lemma filter_Composite_remove_filter:
  "filter P (Composite_remove w (filter P w)) = []"
proof -
  have "mset (filter P (Composite_remove w (filter P w)))
      = filter_mset P (mset w - filter_mset P (mset w))"
    by (simp only: mset_filter mset_Composite_remove)
  also have "\<dots> = {#}"
    by (simp only: filter_diff_mset filter_filter_mset conj_absorb cancel_comm_monoid_add_class.diff_cancel)
  finally show ?thesis using mset_zero_iff by blast
qed

lemma triggerBlackHole_clears:
  "filter (\<lambda>i. \<not> isStatic (bodies s i) \<and> planet (bodies s i) \<noteq> None)
      (world (triggerBlackHole now x y s)) = []
   \<and> score (triggerBlackHole now x y s) = score s + BLACK_HOLE_BONUS"
  by (simp add: triggerBlackHole_world filter_Composite_remove_filter)

text \<open>
  Claim C2, evaluated on a board with two suns (3 and 4) and two planets of level 3
  (5 and 6), for the pair list \<open>[(3, 4), (5, 6)]\<close>. The black hole empties the board;
  the later pair of the same step is still merged, because the bodies the black hole
  removed are not locked: the step ends with a planet of level 4 on the board and
  with the score of that merge on top of the bonus.
\<close>

theorem step_after_mega:
  "\<exists>s'. collisionStart 0 suns_and_threes [(3, 4), (5, 6)] = Inr s'
      \<and> world s' = [0, 1, 2, 7]
      \<and> \<not> isStatic (bodies s' 7) \<and> planet (bodies s' 7) = Some 4
      \<and> score s' = score suns_and_threes + BLACK_HOLE_BONUS + 80"
  by (simp add: suns_and_threes_def eval_defs)

text \<open>
  Claim C4, evaluated on the same board. After the pair \<open>(3, 4)\<close> the bodies 5 and 6
  are no longer in the world; the pair \<open>(5, 6)\<close> is processed all the same: a body is
  spawned, and the score, the high score and the discovery set change.
\<close>

theorem mega_then_merge:
  "\<exists>s1 s2. collisionPair 0 suns_and_threes (3, 4) = Inr s1
      \<and> world s1 = [0, 1, 2] \<and> score s1 = 5000 \<and> hiScore s1 = Num 5000
      \<and> discoveredLevels s1 = []
      \<and> collisionPair 0 s1 (5, 6) = Inr s2
      \<and> world s2 = [0, 1, 2, 7] \<and> planet (bodies s2 7) = Some 4
      \<and> score s2 = 5080 \<and> hiScore s2 = Num 5080 \<and> discoveredLevels s2 = [4]"
  by (simp add: suns_and_threes_def eval_defs)

section \<open>The bag\<close>

lemma filled: "concat (map (\<lambda>lv. replicate (case NEXT_WEIGHTS lv of None \<Rightarrow> 0 | Some c \<Rightarrow> nat c) lv)
                            NEXT_CANDIDATES) = [1,1,1,1,1,1,2,2,2,2,2,2,3,3,3,3,3,4,4,4,4,5,5,5]"
  by (simp add: NEXT_CANDIDATES_def NEXT_WEIGHTS_def numeral_eq_Suc)

lemma valid_random_shift: "valid_random rnd \<Longrightarrow> valid_random (\<lambda>k. rnd (Suc k))"
  by (simp add: valid_random_def)

lemma random_index:
  assumes "valid_random rnd"
  shows "nat \<lfloor>rnd 0 * (real (Suc i) + 1)\<rfloor> \<le> Suc i"
proof -
  have r: "0 \<le> rnd 0" "rnd 0 < 1" using assms by (auto simp: valid_random_def)
  have "rnd 0 * (real (Suc i) + 1) < 1 * (real (Suc i) + 1)"
    using r by (intro mult_strict_right_mono) auto
  then have "\<lfloor>rnd 0 * (real (Suc i) + 1)\<rfloor> < int (Suc i) + 1"
    by (simp add: floor_less_iff)
  then show ?thesis by linarith
qed

lemma shuffle_loop_mset:
  assumes "valid_random rnd" "i < length xs"
  shows "mset (fst (shuffle_loop rnd i xs)) = mset xs \<and> valid_random (snd (shuffle_loop rnd i xs))"
  using assms
proof (induction i arbitrary: rnd xs)
  case 0
  then show ?case by simp
next
  case (Suc i)
  let ?j = "nat \<lfloor>rnd 0 * (real (Suc i) + 1)\<rfloor>"
  let ?ys = "xs[Suc i := xs ! ?j, ?j := xs ! Suc i]"
  have j: "?j < length xs" using random_index[OF Suc.prems(1), of i] Suc.prems(2) by simp
  have "mset ?ys = mset xs" using j Suc.prems(2) by (simp add: mset_swap)
  moreover have "i < length ?ys" using Suc.prems(2) by simp
  ultimately show ?case
    using Suc.IH[of "\<lambda>k. rnd (Suc k)" ?ys] valid_random_shift[OF Suc.prems(1)]
    by (simp add: Let_def)
qed

lemma shuffle_mset:
  assumes "valid_random rnd"
  shows "mset (fst (shuffle rnd xs)) = mset xs \<and> valid_random (snd (shuffle rnd xs))"
proof (cases xs)
  case Nil
  then show ?thesis using assms by (simp add: shuffle_def)
next
  case (Cons x ys)
  then show ?thesis using shuffle_loop_mset[OF assms, of "length xs - 1" xs] by (simp add: shuffle_def)
qed

lemma refill_items:
  assumes "valid_random rnd"
  shows "mset (items (fst (refill rnd bag))) = mset [1,1,1,1,1,1,2,2,2,2,2,2,3,3,3,3,3,4,4,4,4,5,5,5]"
    and "lastItem (fst (refill rnd bag)) = lastItem bag"
    and "valid_random (snd (refill rnd bag))"
  using shuffle_mset[OF assms, of "[1,1,1,1,1,1,2,2,2,2,2,2,3,3,3,3,3,4,4,4,4,5,5,5]"]
  by (simp_all add: refill_def filled Let_def case_prod_beta)

lemma refill_set:
  assumes "valid_random rnd"
  shows "set (items (fst (refill rnd bag))) = set NEXT_CANDIDATES"
proof -
  have "set_mset (mset (items (fst (refill rnd bag)))) = set NEXT_CANDIDATES"
    unfolding refill_items(1)[OF assms] by (simp add: NEXT_CANDIDATES_def)
  then show ?thesis by simp
qed

lemma refill_nonempty:
  assumes "valid_random rnd"
  shows "items (fst (refill rnd bag)) \<noteq> []"
  using refill_set[OF assms, of bag] by (auto simp: NEXT_CANDIDATES_def)

lemma pull_eq:
  assumes "(if items bag0 = [] then refill rnd bag0 else (bag0, rnd)) = (bag, r)"
    and "items bag = x # rest"
  shows "pull rnd bag0 =
     (if rest \<noteq> [] \<and> Some x = lastItem bag
      then (Some (hd rest), bag\<lparr>items := x # tl rest, lastItem := Some (hd rest)\<rparr>, r)
      else (Some x, bag\<lparr>items := rest, lastItem := Some x\<rparr>, r))"
  using assms by (cases rest) (simp_all add: pull_def)


text \<open>What a pull returns, and what it leaves.\<close>

lemma pull_result:
  assumes v: "valid_random rnd" and sub: "set (items bag) \<subseteq> set NEXT_CANDIDATES"
  shows "\<exists>val bag' rnd'. pull rnd bag = (Some val, bag', rnd') \<and> val \<in> set NEXT_CANDIDATES
           \<and> set (items bag') \<subseteq> set NEXT_CANDIDATES \<and> lastItem bag' = Some val
           \<and> valid_random rnd'"
proof -
  obtain b r where br: "(if items bag = [] then refill rnd bag else (bag, rnd)) = (b, r)"
    by (cases "if items bag = [] then refill rnd bag else (bag, rnd)") auto
  have b: "items b \<noteq> []" "set (items b) \<subseteq> set NEXT_CANDIDATES" "valid_random r"
    using br v sub refill_nonempty[OF v, of bag] refill_set[OF v, of bag] refill_items(3)[OF v, of bag]
    by (auto split: if_splits)
  then obtain x rest where xr: "items b = x # rest" by (cases "items b") auto
  have "rest \<noteq> [] \<Longrightarrow> hd rest \<in> set rest" by simp
  moreover have "set (tl rest) \<subseteq> set rest" by (cases rest) auto
  ultimately show ?thesis
    using pull_eq[OF br xr] b xr by auto
qed








section \<open>What the handlers leave alone\<close>

lemma handleMerge_InrE:
  assumes "handleMerge now a b s = Inr s'"
  obtains lv d where "planet (bodies s a) = Some lv" "PLANETS (lv + 1) = Some d"
    "s' = projr (handleMerge now a b s)"
  using assms by (auto simp: handleMerge_def Let_def split: option.splits)

lemma collisionPair_cases:
  assumes "collisionPair now s (a, b) = Inr s'"
  obtains (skip) "s' = boundaryContact now a b s"
  | (mega) "s' = triggerBlackHole now
           ((position_x (bodies s a) + position_x (bodies s b)) / 2)
           ((position_y (bodies s a) + position_y (bodies s b)) / 2)
           ((boundaryContact now a b s)\<lparr>mergeLockedBodies := insert b (insert a (mergeLockedBodies s))\<rparr>)"
  | (merge) "handleMerge now a b
           ((boundaryContact now a b s)\<lparr>mergeLockedBodies := insert b (insert a (mergeLockedBodies s))\<rparr>)
           = Inr s'"
proof (cases "mergeLevel s (a, b)")
  case None
  then show ?thesis using assms skip by (auto simp: collisionPair_none)
next
  case (Some lv)
  then have le: "lv \<le> 11" by (auto simp: mergeLevel_def split: option.splits if_splits)
  show ?thesis
  proof (cases "a \<in> mergeLockedBodies s \<or> b \<in> mergeLockedBodies s")
    case True
    then show ?thesis using assms skip collisionPair_locked_any[OF True, of now] by auto
  next
    case False
    show ?thesis
    proof (cases "lv = 11")
      case True
      then show ?thesis using assms Some False mega collisionPair_mega[of s a b now] by auto
    next
      case ne: False
      then have "lv < 11" using le by simp
      then show ?thesis using assms Some False merge collisionPair_merge[of s a b lv now] by auto
    qed
  qed
qed

lemma collisionPair_levels:
  assumes "collisionPair now s pr = Inr s'"
  shows "currentLevel s' = currentLevel s \<and> nextLevel s' = nextLevel s \<and> planetBag s' = planetBag s"
proof -
  obtain a b where pr: "pr = (a, b)" by (cases pr)
  from assms[unfolded pr] show ?thesis
  proof (cases rule: collisionPair_cases)
    case skip
    then show ?thesis by simp
  next
    case mega
    then show ?thesis by simp
  next
    case merge
    from merge show ?thesis
    proof (cases rule: handleMerge_InrE)
      case (1 lv d)
      show ?thesis
        using handleMerge_fields(11,12,13)[OF 1(1,2), of now b] 1(3) by simp
    qed
  qed
qed

lemma collisionStart_levels:
  "collisionStart now s prs = Inr s' \<Longrightarrow>
     currentLevel s' = currentLevel s \<and> nextLevel s' = nextLevel s \<and> planetBag s' = planetBag s"
proof (induction prs arbitrary: s)
  case Nil
  then show ?case by simp
next
  case (Cons pr prs)
  then obtain s1 where s1: "collisionPair now s pr = Inr s1" "collisionStart now s1 prs = Inr s'"
    by (auto split: sum.splits)
  from collisionPair_levels[OF s1(1)] Cons.IH[OF s1(2)] show ?case by simp
qed

lemma checkDeadline_levels [simp]:
  "currentLevel (checkDeadline now s) = currentLevel s"
  "nextLevel (checkDeadline now s) = nextLevel s"
  "planetBag (checkDeadline now s) = planetBag s"
  by (simp_all add: checkDeadline_def setGameOver_def split: option.splits)

lemma rebuildBounds_levels [simp]:
  "currentLevel (rebuildBounds w h s) = currentLevel s"
  "nextLevel (rebuildBounds w h s) = nextLevel s"
  "planetBag (rebuildBounds w h s) = planetBag s"
  by (simp_all add: rebuildBounds_def Let_def)

lemma updateDropX_levels:
  assumes "updateDropX x s = Inr s'"
  shows "currentLevel s' = currentLevel s \<and> nextLevel s' = nextLevel s \<and> planetBag s' = planetBag s
       \<and> world s' = world s \<and> nextId s' = nextId s \<and> bodies s' = bodies s"
  using assms by (auto simp: updateDropX_def split: option.splits)


section \<open>Drop, reset and start, as results\<close>

lemma candidates_defined:
  assumes "lv \<in> set NEXT_CANDIDATES"
  shows "\<exists>d. PLANETS lv = Some d \<and> p_level d = lv"
proof -
  have "1 \<le> lv \<and> lv \<le> 11" using assms by (auto simp: NEXT_CANDIDATES_def)
  then show ?thesis using PLANETS_defined[of lv] by auto
qed

lemma discoverLevel_dropX [simp]: "dropX (discoverLevel lv s) = dropX s"
  by (simp add: discoverLevel_def)

lemma dropPlanet_result:
  assumes ok: "levels_ok s" and v: "valid_random rnd"
  shows "\<exists>s' d. dropPlanet rnd s = Inr s' \<and> PLANETS (currentLevel s) = Some d
       \<and> world s' = world s @ [nextId s]
       \<and> bodies s' = (bodies s)(nextId s :=
            Bodies_circle (dropX s) 50 (p_radius d) (currentLevel s) False)
       \<and> nextId s' = Suc (nextId s)
       \<and> currentLevel s' = nextLevel s
       \<and> levels_ok s'"
proof -
  from ok obtain d where d: "PLANETS (currentLevel s) = Some d" "p_level d = currentLevel s"
    using candidates_defined[of "currentLevel s"] by (auto simp: levels_ok_def)
  from ok have "set (items (planetBag s)) \<subseteq> set NEXT_CANDIDATES" by (simp add: levels_ok_def)
  from pull_result[OF v this] obtain val bag' rnd' where
    p: "pull rnd (planetBag s) = (Some val, bag', rnd')" "val \<in> set NEXT_CANDIDATES"
       "set (items bag') \<subseteq> set NEXT_CANDIDATES"
    by blast
  show ?thesis
    using d p ok
    by (simp add: dropPlanet_def Let_def Composite_add_def levels_ok_def)
qed

lemma reset_result:
  assumes v: "valid_random rnd"
  shows "lastItem (fst (reset rnd bag)) = None"
    and "mset (items (fst (reset rnd bag))) = mset [1,1,1,1,1,1,2,2,2,2,2,2,3,3,3,3,3,4,4,4,4,5,5,5]"
    and "set (items (fst (reset rnd bag))) = set NEXT_CANDIDATES"
    and "valid_random (snd (reset rnd bag))"
  using refill_items[OF v, of "bag\<lparr>lastItem := None\<rparr>"] refill_set[OF v, of "bag\<lparr>lastItem := None\<rparr>"]
  by (simp_all add: reset_def)

lemma two_pulls:
  assumes v: "valid_random rnd" and sub: "set (items bag) \<subseteq> set NEXT_CANDIDATES"
  shows "\<exists>v1 bag1 rnd1 v2 bag2 rnd2. pull rnd bag = (Some v1, bag1, rnd1)
       \<and> pull rnd1 bag1 = (Some v2, bag2, rnd2)
       \<and> v1 \<in> set NEXT_CANDIDATES \<and> v2 \<in> set NEXT_CANDIDATES
       \<and> set (items bag2) \<subseteq> set NEXT_CANDIDATES"
proof -
  from pull_result[OF v sub] obtain v1 bag1 rnd1 where
    p1: "pull rnd bag = (Some v1, bag1, rnd1)" "v1 \<in> set NEXT_CANDIDATES"
        "set (items bag1) \<subseteq> set NEXT_CANDIDATES" "valid_random rnd1"
    by blast
  from pull_result[OF p1(4) p1(3)] obtain v2 bag2 rnd2 where
    p2: "pull rnd1 bag1 = (Some v2, bag2, rnd2)" "v2 \<in> set NEXT_CANDIDATES"
        "set (items bag2) \<subseteq> set NEXT_CANDIDATES"
    by blast
  from p1 p2 show ?thesis by blast
qed

lemma resetGame_result:
  assumes v: "valid_random rnd"
  shows "\<exists>s' bag1 rnd1 rnd2. resetGame rnd s = Inr s'
       \<and> score s' = 0 \<and> discoveredLevels s' = [] \<and> \<not> isGameOver s' \<and> hiScore s' = hiScore s
       \<and> deadLineViolatedStartTime s' = None
       \<and> bodies s' = bodies s
       \<and> world s' = Composite_remove (world s) (filter (\<lambda>i. \<not> isStatic (bodies s i)) (world s))
       \<and> blackHoleEffects s' = [] \<and> flashes s' = flashes s \<and> scorePops s' = scorePops s
       \<and> pull (snd (reset rnd (planetBag s))) (fst (reset rnd (planetBag s)))
            = (Some (nextLevel s'), bag1, rnd1)
       \<and> pull rnd1 bag1 = (Some (currentLevel s'), planetBag s', rnd2)
       \<and> levels_ok s'"
proof -
  let ?b = "fst (reset rnd (planetBag s))" and ?r = "snd (reset rnd (planetBag s))"
  have "set (items ?b) \<subseteq> set NEXT_CANDIDATES" "valid_random ?r"
    using reset_result[OF v, of "planetBag s"] by simp_all
  from two_pulls[OF this(2) this(1)] obtain v1 bag1 rnd1 v2 bag2 rnd2 where
    p: "pull ?r ?b = (Some v1, bag1, rnd1)" "pull rnd1 bag1 = (Some v2, bag2, rnd2)"
       "v1 \<in> set NEXT_CANDIDATES" "v2 \<in> set NEXT_CANDIDATES"
       "set (items bag2) \<subseteq> set NEXT_CANDIDATES"
    by blast
  show ?thesis
    using p by (simp add: resetGame_def setGameOver_def Let_def case_prod_beta levels_ok_def)
qed

lemma init_result:
  assumes v: "valid_random rnd"
  shows "\<exists>s. init rnd store w h = Inr s \<and> levels_ok s \<and> discoveredLevels s = []
       \<and> hiScore s = parseInt (case store ''hiScore'' of None \<Rightarrow> ''0''
                                | Some v \<Rightarrow> if v = [] then ''0'' else v)
       \<and> score s = 0 \<and> \<not> isGameOver s \<and> localStorage s = store"
proof -
  let ?b = "fst (new_PlanetBag rnd)" and ?r = "snd (new_PlanetBag rnd)"
  have "set (items ?b) \<subseteq> set NEXT_CANDIDATES" "valid_random ?r"
    using refill_set[OF v, of "\<lparr>items = [], lastItem = None\<rparr>"]
      refill_items(3)[OF v, of "\<lparr>items = [], lastItem = None\<rparr>"]
    by (simp_all add: new_PlanetBag_def)
  from two_pulls[OF this(2) this(1)] obtain v1 bag1 rnd1 v2 bag2 rnd2 where
    p: "pull ?r ?b = (Some v1, bag1, rnd1)" "pull rnd1 bag1 = (Some v2, bag2, rnd2)"
       "v1 \<in> set NEXT_CANDIDATES" "v2 \<in> set NEXT_CANDIDATES"
       "set (items bag2) \<subseteq> set NEXT_CANDIDATES"
    by blast
  show ?thesis
    using p by (simp add: init_def initialGame_def rebuildBounds_def Let_def levels_ok_def)
qed

lemma reachable_levels_ok: "reachable s \<Longrightarrow> levels_ok s"
proof (induction rule: reachable.induct)
  case (reach_init rnd store w h s)
  then show ?case using init_result[of rnd store w h] by auto
next
  case (reach_engine s bs)
  then show ?case by (simp add: levels_ok_def)
next
  case (reach_collision s prs now s')
  then show ?case using collisionStart_levels[of now s prs s'] by (simp add: levels_ok_def)
next
  case (reach_afterUpdate s now)
  then show ?case by (simp add: afterUpdate_def levels_ok_def)
next
  case (reach_afterRender s now)
  then show ?case by (simp add: afterRender_def levels_ok_def)
next
  case (reach_pointerdown s rnd x running s')
  show ?case
  proof (cases "isGameOver s")
    case True
    then show ?thesis using reach_pointerdown resetGame_result[of rnd s] by (auto simp: pointerdown_def)
  next
    case False
    then have "updateDropX x (s\<lparr>audioReady := running\<rparr>) = Inr s'"
      using reach_pointerdown by (simp add: pointerdown_def)
    from updateDropX_levels[OF this] reach_pointerdown.IH show ?thesis by (simp add: levels_ok_def)
  qed
next
  case (reach_pointermove s x s')
  then show ?case using updateDropX_levels[of x s s'] by (auto simp: pointermove_def levels_ok_def split: if_splits)
next
  case (reach_pointerup s rnd x s')
  show ?case
  proof (cases "isGameOver s \<or> isCoolingDown s")
    case True
    then show ?thesis using reach_pointerup by (auto simp: pointerup_def)
  next
    case False
    then obtain s1 where s1: "updateDropX x s = Inr s1" "dropPlanet rnd s1 = Inr s'"
      using reach_pointerup by (auto simp: pointerup_def split: sum.splits)
    have "levels_ok s1" using updateDropX_levels[OF s1(1)] reach_pointerup.IH by (simp add: levels_ok_def)
    from dropPlanet_result[OF this reach_pointerup.hyps(2)] s1(2) show ?thesis by auto
  qed
next
  case (reach_cooldown s)
  then show ?case by (simp add: cooldownElapsed_def levels_ok_def)
next
  case (reach_resize s w h s')
  then show ?case
    using updateDropX_levels[of "dropX s" "rebuildBounds w h (s\<lparr>height := h, clientWidth := w\<rparr>)" s']
    by (simp add: handleResize_def levels_ok_def)
qed

section \<open>Levels of dropped planets\<close>

text \<open>
  Claim C10. In every session the program can reach, the current level, the next
  level and all levels waiting in the bag are among 1 to 5; \<open>dropPlanet\<close> succeeds there
  and puts exactly one new body into the world, a non-static planet of the current
  level. So a planet of level 6 or more never enters the world by a drop.
\<close>

theorem dropped_levels:
  assumes "reachable s" "valid_random rnd"
  shows "currentLevel s \<in> {1, 2, 3, 4, 5} \<and> nextLevel s \<in> {1, 2, 3, 4, 5}
       \<and> set (items (planetBag s)) \<subseteq> {1, 2, 3, 4, 5}
       \<and> (\<exists>s'. dropPlanet rnd s = Inr s'
             \<and> world s' = world s @ [nextId s]
             \<and> planet (bodies s' (nextId s)) = Some (currentLevel s)
             \<and> \<not> isStatic (bodies s' (nextId s)))"
proof -
  have ok: "levels_ok s" using assms(1) by (rule reachable_levels_ok)
  from dropPlanet_result[OF ok assms(2)] ok show ?thesis
    by (auto simp: levels_ok_def NEXT_CANDIDATES_def Bodies_circle_def)
qed


theorem dropped_levels_witness:
  "\<exists>s0 s'. init (\<lambda>_. 0) Map.empty 400 600 = Inr s0
      \<and> currentLevel s0 \<in> {1, 2, 3, 4, 5}
      \<and> dropPlanet (\<lambda>_. 0) s0 = Inr s'
      \<and> world s' = world s0 @ [nextId s0]
      \<and> planet (bodies s' (nextId s0)) = Some (currentLevel s0)"
proof -
  have v: "valid_random (\<lambda>_. 0)" by (simp add: valid_random_def)
  from init_result[OF v, of Map.empty 400 600] obtain s0 where
    s0: "init (\<lambda>_. 0) Map.empty 400 600 = Inr s0" by blast
  have "reachable s0" using v s0 by (rule reach_init)
  from dropped_levels[OF this v] s0 show ?thesis by blast
qed

section \<open>Resetting the game\<close>

text \<open>
  Claim C8 does not hold as stated: \<open>resetGame\<close> empties the queue of black-hole
  effects only. On a board that is game over with one flash and one score popup
  pending, both are still pending after the reset.
\<close>

theorem reset_keeps_effects:
  "isGameOver game_over_board
   \<and> (\<exists>s'. resetGame (\<lambda>_. 0) game_over_board = Inr s' \<and> flashes s' \<noteq> [] \<and> scorePops s' \<noteq> [])"
proof -
  have "valid_random (\<lambda>_. 0)" by (simp add: valid_random_def)
  from resetGame_result[OF this, of game_over_board] show ?thesis
    by (auto simp: game_over_board_def example_session_def)
qed

text \<open>
  Claim C8, amended. In any state, so also when the game is over, \<open>resetGame\<close>
  succeeds: the score is 0, the discovery set is empty, the game is not over, the
  high score is what it was, no non-static body is left in the world, and the queue
  of black-hole effects is empty, while the flashes and the score popups stay as
  they are. The bag is reset first (no remembered last level, a full reshuffled
  supply); the next level is the first pull from it and the current level the
  second, both among 1 to 5.
\<close>

theorem resetGame_effect:
  assumes "valid_random rnd"
  shows "\<exists>s' bag1 rnd1 rnd2. resetGame rnd s = Inr s'
       \<and> score s' = 0 \<and> discoveredLevels s' = [] \<and> \<not> isGameOver s' \<and> hiScore s' = hiScore s
       \<and> filter (\<lambda>i. \<not> isStatic (bodies s' i)) (world s') = []
       \<and> blackHoleEffects s' = [] \<and> flashes s' = flashes s \<and> scorePops s' = scorePops s
       \<and> lastItem (fst (reset rnd (planetBag s))) = None
       \<and> mset (items (fst (reset rnd (planetBag s))))
            = mset [1,1,1,1,1,1,2,2,2,2,2,2,3,3,3,3,3,4,4,4,4,5,5,5]
       \<and> pull (snd (reset rnd (planetBag s))) (fst (reset rnd (planetBag s)))
            = (Some (nextLevel s'), bag1, rnd1)
       \<and> pull rnd1 bag1 = (Some (currentLevel s'), planetBag s', rnd2)
       \<and> nextLevel s' \<in> {1, 2, 3, 4, 5} \<and> currentLevel s' \<in> {1, 2, 3, 4, 5}"
proof -
  from resetGame_result[OF assms, of s] obtain s' bag1 rnd1 rnd2 where
    r: "resetGame rnd s = Inr s'" "score s' = 0" "discoveredLevels s' = []" "\<not> isGameOver s'"
       "hiScore s' = hiScore s" "bodies s' = bodies s"
       "world s' = Composite_remove (world s) (filter (\<lambda>i. \<not> isStatic (bodies s i)) (world s))"
       "blackHoleEffects s' = []" "flashes s' = flashes s" "scorePops s' = scorePops s"
       "pull (snd (reset rnd (planetBag s))) (fst (reset rnd (planetBag s)))
            = (Some (nextLevel s'), bag1, rnd1)"
       "pull rnd1 bag1 = (Some (currentLevel s'), planetBag s', rnd2)"
       "levels_ok s'"
    by blast
  have "filter (\<lambda>i. \<not> isStatic (bodies s' i)) (world s') = []"
    unfolding r(6,7) by (rule filter_Composite_remove_filter)
  moreover have "nextLevel s' \<in> {1, 2, 3, 4, 5} \<and> currentLevel s' \<in> {1, 2, 3, 4, 5}"
    using r(13) by (simp add: levels_ok_def NEXT_CANDIDATES_def)
  ultimately show ?thesis
    using r reset_result(1,2)[OF assms, of "planetBag s"] by blast
qed

theorem resetGame_effect_witness:
  "\<exists>s'. resetGame (\<lambda>_. 0) game_over_board = Inr s'
      \<and> score s' = 0 \<and> discoveredLevels s' = [] \<and> \<not> isGameOver s' \<and> hiScore s' = Num 120
      \<and> blackHoleEffects s' = []"
proof -
  have "valid_random (\<lambda>_. 0)" by (simp add: valid_random_def)
  from resetGame_effect[OF this, of game_over_board] show ?thesis
    by (auto simp: game_over_board_def example_session_def)
qed

section \<open>Starting a session\<close>

lemma decimal_char:
  assumes "k < 10"
  shows "digitValue (''0123456789'' ! k) = Some k \<and> \<not> isWhiteSpace (''0123456789'' ! k)
       \<and> ''0123456789'' ! k \<noteq> CHR ''-'' \<and> ''0123456789'' ! k \<noteq> CHR ''+''
       \<and> ''0123456789'' ! k \<noteq> CHR ''x'' \<and> ''0123456789'' ! k \<noteq> CHR ''X''"
proof -
  from assms have "k = 0 \<or> k = 1 \<or> k = 2 \<or> k = 3 \<or> k = 4 \<or> k = 5 \<or> k = 6 \<or> k = 7 \<or> k = 8 \<or> k = 9"
    by arith
  then show ?thesis
    by (elim disjE) (simp_all add: digitValue_def isWhiteSpace_def)
qed

lemma digits_decimal: "digits n \<noteq> [] \<and> (\<forall>c \<in> set (digits n). decimal c)"
proof (induction n rule: digits.induct)
  case (1 n)
  show ?case
  proof (cases "n < 10")
    case True
    then show ?thesis by (subst (1 2) digits.simps) (auto simp: decimal_def)
  next
    case False
    have "n mod 10 < 10" by simp
    then have "decimal (''0123456789'' ! (n mod 10))" unfolding decimal_def by blast
    then show ?thesis using False 1 by (subst (1 2) digits.simps) auto
  qed
qed

lemma digitsValue_snoc:
  "digitsValue r (cs @ [c]) = digitsValue r cs * r + (case digitValue c of None \<Rightarrow> 0 | Some d \<Rightarrow> d)"
  by (simp add: digitsValue_def)

lemma digitsValue_digits: "digitsValue 10 (digits n) = n"
proof (induction n rule: digits.induct)
  case (1 n)
  show ?case
  proof (cases "n < 10")
    case True
    then show ?thesis
      using decimal_char[of n] by (subst digits.simps) (simp add: digitsValue_def)
  next
    case False
    have "n mod 10 < 10" by simp
    from decimal_char[OF this] have "digitValue (''0123456789'' ! (n mod 10)) = Some (n mod 10)"
      by simp
    then show ?thesis
      using False 1 by (subst digits.simps) (simp add: digitsValue_snoc)
  qed
qed

lemma parseInt_decimal:
  assumes ne: "cs \<noteq> []" and dec: "\<forall>c \<in> set cs. decimal c"
  shows "parseInt cs = Num (int (digitsValue 10 cs))"
proof -
  have props: "\<not> isWhiteSpace c \<and> c \<noteq> CHR ''-'' \<and> c \<noteq> CHR ''+''
       \<and> c \<noteq> CHR ''x'' \<and> c \<noteq> CHR ''X'' \<and> isDigitOf 10 c" if "c \<in> set cs" for c
  proof -
    from dec that obtain k where k: "k < 10" "c = ''0123456789'' ! k"
      unfolding decimal_def by blast
    from decimal_char[OF k(1)] k show ?thesis by (simp add: isDigitOf_def)
  qed
  obtain c r where cs: "cs = c # r" using ne by (cases cs) auto
  have dw: "dropWhile isWhiteSpace cs = cs" using props cs by simp
  have tw: "takeWhile (isDigitOf 10) cs = cs" using props by (simp add: takeWhile_eq_all_conv)
  have radix: "(case cs of a # b # r \<Rightarrow> if a = CHR ''0'' \<and> (b = CHR ''x'' \<or> b = CHR ''X'')
                                         then (16, r) else (10 :: nat, cs)
                         | _ \<Rightarrow> (10, cs)) = (10, cs)"
    using props cs by (cases r) auto
  have sign: "(case cs of [] \<Rightarrow> (1, [])
                        | c # r \<Rightarrow> if c = CHR ''-'' then (- 1, r)
                                   else if c = CHR ''+'' then (1, r) else (1 :: int, cs)) = (1, cs)"
    using props cs by auto
  show ?thesis
    unfolding parseInt_def dw Let_def sign prod.case radix tw using ne by simp
qed

lemma parseInt_toString:
  assumes "0 \<le> n"
  shows "parseInt (toString n) = Num n"
  using assms digits_decimal[of "nat n"] parseInt_decimal[of "digits (nat n)"]
  by (simp add: toString_def digitsValue_digits)

lemma toString_nonempty: "0 \<le> n \<Longrightarrow> toString n \<noteq> []"
  using digits_decimal[of "nat n"] by (simp add: toString_def)

lemma parseInt_zero: "parseInt ''0'' = Num 0"
  by (simp add: parseInt_def isWhiteSpace_def isDigitOf_def digitValue_def digitsValue_def)

lemma parseInt_abc: "parseInt ''abc'' = NaN"
  by (simp add: parseInt_def isWhiteSpace_def isDigitOf_def digitValue_def digitsValue_def)

text \<open>
  Claim C9 does not hold as stated. With the text \<open>abc\<close> stored under \<open>hiScore\<close> the
  session starts with the high score \<open>NaN\<close>, not 0; and a stored discovery set is not
  read at all.
\<close>

theorem corrupt_hiScore:
  "valid_random (\<lambda>_. 0)
   \<and> (\<exists>s. init (\<lambda>_. 0) (Map.empty(''hiScore'' \<mapsto> ''abc'', ''discoveredLevels'' \<mapsto> ''[1,2,3]'')) 400 600 = Inr s
          \<and> hiScore s = NaN \<and> hiScore s \<noteq> Num 0 \<and> discoveredLevels s = [])"
proof -
  have v: "valid_random (\<lambda>_. 0)" by (simp add: valid_random_def)
  from init_result[OF v, of "Map.empty(''hiScore'' \<mapsto> ''abc'', ''discoveredLevels'' \<mapsto> ''[1,2,3]'')" 400 600]
  show ?thesis using v by (auto simp: parseInt_abc)
qed

text \<open>
  Claim C9, amended. \<open>init\<close> succeeds for every store. The high score is read from
  the store: an absent or empty entry gives 0, and the decimal text of a number
  \<open>n \<ge> 0\<close>, as the game writes it, gives \<open>n\<close>. The discovery set is not read; it
  starts empty whatever the store holds.
\<close>

theorem session_start:
  assumes "valid_random rnd"
  shows "\<exists>s. init rnd store w h = Inr s
       \<and> discoveredLevels s = []
       \<and> (store ''hiScore'' = None \<or> store ''hiScore'' = Some [] \<longrightarrow> hiScore s = Num 0)
       \<and> (\<forall>n. 0 \<le> n \<and> store ''hiScore'' = Some (toString n) \<longrightarrow> hiScore s = Num n)"
proof -
  from init_result[OF assms, of store w h] obtain s where
    s: "init rnd store w h = Inr s" "discoveredLevels s = []"
       "hiScore s = parseInt (case store ''hiScore'' of None \<Rightarrow> ''0''
                                | Some v \<Rightarrow> if v = [] then ''0'' else v)"
    by blast
  have "store ''hiScore'' = None \<or> store ''hiScore'' = Some [] \<longrightarrow> hiScore s = Num 0"
    using s(3) by (auto simp: parseInt_zero)
  moreover have "\<forall>n. 0 \<le> n \<and> store ''hiScore'' = Some (toString n) \<longrightarrow> hiScore s = Num n"
    using s(3) by (auto simp: parseInt_toString toString_nonempty)
  ultimately show ?thesis using s(1,2) by blast
qed

theorem session_start_witness:
  "\<exists>s. init (\<lambda>_. 0) (Map.empty(''hiScore'' \<mapsto> toString 120)) 400 600 = Inr s
      \<and> discoveredLevels s = [] \<and> hiScore s = Num 120"
proof -
  have "valid_random (\<lambda>_. 0)" by (simp add: valid_random_def)
  from session_start[OF this, of "Map.empty(''hiScore'' \<mapsto> toString 120)" 400 600]
  obtain s where s: "init (\<lambda>_. 0) (Map.empty(''hiScore'' \<mapsto> toString 120)) 400 600 = Inr s"
      "discoveredLevels s = []"
      "\<forall>n. 0 \<le> n \<and> (Map.empty(''hiScore'' \<mapsto> toString 120)) ''hiScore'' = Some (toString n)
           \<longrightarrow> hiScore s = Num n"
    by blast
  from s(3) have "hiScore s = Num 120" by simp
  with s(1,2) show ?thesis by blast
qed


section \<open>The deadline and its grace period\<close>

lemma deadlineViolation_cong:
  "height a = height b \<Longrightarrow> bodies a = bodies b \<Longrightarrow> world a = world b
   \<Longrightarrow> deadlineViolation a = deadlineViolation b"
  by (simp add: deadlineViolation_def)

lemma checkDeadline_height [simp]: "height (checkDeadline now s) = height s"
  by (simp add: checkDeadline_def setGameOver_def split: option.splits)

lemma afterUpdate_height [simp]: "height (afterUpdate now s) = height s"
  by (simp add: afterUpdate_def)

lemma violating_afterUpdate [simp]:
  "violating (afterUpdate now (s\<lparr>bodies := bs, world := w\<rparr>)) st = violating s st"
  unfolding violating_def by (rule deadlineViolation_cong) simp_all

lemma afterUpdate_step:
  assumes "\<not> isGameOver s"
  shows "violating s (now, bs, w) \<Longrightarrow> deadLineViolatedStartTime s = None \<or> deadLineViolatedStartTime s = Some 0
           \<Longrightarrow> deadLineViolatedStartTime (afterUpdate now (s\<lparr>bodies := bs, world := w\<rparr>)) = Some now
               \<and> \<not> isGameOver (afterUpdate now (s\<lparr>bodies := bs, world := w\<rparr>))"
    and "violating s (now, bs, w) \<Longrightarrow> deadLineViolatedStartTime s = Some t \<Longrightarrow> t \<noteq> 0
           \<Longrightarrow> deadLineViolatedStartTime (afterUpdate now (s\<lparr>bodies := bs, world := w\<rparr>)) = Some t
               \<and> isGameOver (afterUpdate now (s\<lparr>bodies := bs, world := w\<rparr>))
                   = (DEADLINE_THRESHOLD_MS < now - t)"
    and "\<not> violating s (now, bs, w)
           \<Longrightarrow> deadLineViolatedStartTime (afterUpdate now (s\<lparr>bodies := bs, world := w\<rparr>)) = None
               \<and> \<not> isGameOver (afterUpdate now (s\<lparr>bodies := bs, world := w\<rparr>))"
proof -
  have eq: "deadlineViolation (s\<lparr>bodies := bs, world := w, mergeLockedBodies := {}\<rparr>) = violating s (now, bs, w)"
    unfolding violating_def by (rule deadlineViolation_cong) simp_all
  show "violating s (now, bs, w) \<Longrightarrow> deadLineViolatedStartTime s = None \<or> deadLineViolatedStartTime s = Some 0
           \<Longrightarrow> deadLineViolatedStartTime (afterUpdate now (s\<lparr>bodies := bs, world := w\<rparr>)) = Some now
               \<and> \<not> isGameOver (afterUpdate now (s\<lparr>bodies := bs, world := w\<rparr>))"
    using assms eq by (auto simp: afterUpdate_def checkDeadline_def)
  show "violating s (now, bs, w) \<Longrightarrow> deadLineViolatedStartTime s = Some t \<Longrightarrow> t \<noteq> 0
           \<Longrightarrow> deadLineViolatedStartTime (afterUpdate now (s\<lparr>bodies := bs, world := w\<rparr>)) = Some t
               \<and> isGameOver (afterUpdate now (s\<lparr>bodies := bs, world := w\<rparr>))
                   = (DEADLINE_THRESHOLD_MS < now - t)"
    using assms eq by (auto simp: afterUpdate_def checkDeadline_def setGameOver_def)
  show "\<not> violating s (now, bs, w)
           \<Longrightarrow> deadLineViolatedStartTime (afterUpdate now (s\<lparr>bodies := bs, world := w\<rparr>)) = None
               \<and> \<not> isGameOver (afterUpdate now (s\<lparr>bodies := bs, world := w\<rparr>))"
    using assms eq by (auto simp: afterUpdate_def checkDeadline_def)
qed

lemma deadlineRun_over: "isGameOver s \<Longrightarrow> isGameOver (deadlineRun s hist)"
proof (induction hist arbitrary: s)
  case Nil
  then show ?case by simp
next
  case (Cons st hist)
  obtain now bs w where st: "st = (now, bs, w)" by (cases st)
  have "isGameOver (afterUpdate now (s\<lparr>bodies := bs, world := w\<rparr>))"
    using Cons.prems by (simp add: afterUpdate_def checkDeadline_def)
  from Cons.IH[OF this] show ?case by (simp add: st)
qed

lemma deadlineRun_sustained:
  assumes "\<not> isGameOver s" "deadLineViolatedStartTime s = Some t0" "t0 \<noteq> 0"
    and "\<forall>st \<in> set hist. violating s st"
  shows "isGameOver (deadlineRun s hist) \<longleftrightarrow> (\<exists>st \<in> set hist. DEADLINE_THRESHOLD_MS < fst st - t0)"
  using assms
proof (induction hist arbitrary: s)
  case Nil
  then show ?case by simp
next
  case (Cons st hist)
  obtain now bs w where st: "st = (now, bs, w)" by (cases st)
  let ?s1 = "afterUpdate now (s\<lparr>bodies := bs, world := w\<rparr>)"
  have v: "violating s (now, bs, w)" using Cons.prems(4) st by simp
  note step = afterUpdate_step(2)[OF Cons.prems(1) v Cons.prems(2,3)]
  show ?case
  proof (cases "DEADLINE_THRESHOLD_MS < now - t0")
    case True
    then have "isGameOver ?s1" using step by simp
    from deadlineRun_over[OF this] True show ?thesis by (simp add: st)
  next
    case False
    then have s1: "\<not> isGameOver ?s1" "deadLineViolatedStartTime ?s1 = Some t0" using step by simp_all
    have "\<forall>st \<in> set hist. violating ?s1 st" using Cons.prems(4) by simp
    from Cons.IH[OF s1 Cons.prems(3) this] False show ?thesis by (simp add: st)
  qed
qed

lemma violating_high: "violating playing (t, high_board, [0, 1, 2, 3])"
  by (simp add: violating_def deadlineViolation_def playing_def example_session_def high_board_def
      piece_def wall_def Bodies_circle_def DEADLINE_RATIO_def)

lemma calm_low: "\<not> violating playing (t, low_board, [0, 1, 2, 3])"
  by (simp add: violating_def deadlineViolation_def playing_def example_session_def low_board_def
      piece_def wall_def Bodies_circle_def DEADLINE_RATIO_def)

text \<open>
  Claim C6. The game is not over in \<open>s\<close>. A violation starts at the step with the
  clock reading \<open>t0\<close> and goes on through every step of \<open>hist\<close>; the snapshot at \<open>tc\<close>
  has no violating body. The clock reading \<open>t0\<close> is not 0 (\<open>performance.now()\<close> is
  positive once the page has loaded; the code takes a start time 0 for no start time).
  Then: if no grace timer runs in \<open>s\<close>, the game is over after the history exactly
  when some step of it comes strictly more than the threshold after \<open>t0\<close>, so a
  step exactly at the threshold does not end the game and a later one does; a step
  without violation sets the timer to none and does not end the game, whatever the
  timer was; and after such a step the violation is timed from its own first step
  \<open>t0\<close> again.
\<close>

theorem deadline_grace:
  assumes playing: "\<not> isGameOver s" and t0: "t0 \<noteq> 0"
    and first: "violating s (t0, bs0, w0)"
    and sustained: "\<forall>st \<in> set hist. violating s st"
    and calm: "\<not> violating s (tc, bsc, wc)"
  shows "(deadLineViolatedStartTime s = None \<longrightarrow>
            (isGameOver (deadlineRun s ((t0, bs0, w0) # hist))
               \<longleftrightarrow> (\<exists>st \<in> set hist. DEADLINE_THRESHOLD_MS < fst st - t0)))
       \<and> deadLineViolatedStartTime (deadlineRun s [(tc, bsc, wc)]) = None
       \<and> \<not> isGameOver (deadlineRun s [(tc, bsc, wc)])
       \<and> (isGameOver (deadlineRun s ((tc, bsc, wc) # (t0, bs0, w0) # hist))
               \<longleftrightarrow> (\<exists>st \<in> set hist. DEADLINE_THRESHOLD_MS < fst st - t0))"
proof -
  have run: "isGameOver (deadlineRun u ((t0, bs0, w0) # hist))
               \<longleftrightarrow> (\<exists>st \<in> set hist. DEADLINE_THRESHOLD_MS < fst st - t0)"
    if u: "\<not> isGameOver u" "deadLineViolatedStartTime u = None" "\<And>st. violating u st = violating s st"
    for u
  proof -
    let ?u1 = "afterUpdate t0 (u\<lparr>bodies := bs0, world := w0\<rparr>)"
    have "violating u (t0, bs0, w0)" using first u(3) by simp
    from afterUpdate_step(1)[OF u(1) this] u(2)
    have u1: "\<not> isGameOver ?u1" "deadLineViolatedStartTime ?u1 = Some t0" by simp_all
    have "\<forall>st \<in> set hist. violating ?u1 st" using sustained u(3) by simp
    from deadlineRun_sustained[OF u1 t0 this] show ?thesis by simp
  qed
  let ?c = "afterUpdate tc (s\<lparr>bodies := bsc, world := wc\<rparr>)"
  note c = afterUpdate_step(3)[OF playing calm]
  have "isGameOver (deadlineRun ?c ((t0, bs0, w0) # hist))
               \<longleftrightarrow> (\<exists>st \<in> set hist. DEADLINE_THRESHOLD_MS < fst st - t0)"
    using c by (intro run) simp_all
  moreover have "deadLineViolatedStartTime s = None \<longrightarrow>
            (isGameOver (deadlineRun s ((t0, bs0, w0) # hist))
               \<longleftrightarrow> (\<exists>st \<in> set hist. DEADLINE_THRESHOLD_MS < fst st - t0))"
    using run[of s] playing by blast
  ultimately show ?thesis using c by simp
qed

theorem deadline_grace_witness:
  "\<not> isGameOver (deadlineRun playing [(1000, high_board, [0, 1, 2, 3]), (2500, high_board, [0, 1, 2, 3])])
   \<and> isGameOver (deadlineRun playing [(900, low_board, [0, 1, 2, 3]), (1000, high_board, [0, 1, 2, 3]),
                                       (2500, high_board, [0, 1, 2, 3]), (2501, high_board, [0, 1, 2, 3])])
   \<and> deadLineViolatedStartTime (deadlineRun playing [(900, low_board, [0, 1, 2, 3])]) = None"
proof -
  have a: "\<not> isGameOver playing" "deadLineViolatedStartTime playing = None"
    by (simp_all add: playing_def example_session_def)
  have "\<forall>st \<in> set [(2500 :: real, high_board, [0, 1, 2, 3 :: nat])]. violating playing st"
    using violating_high[of 2500] by simp
  from deadline_grace[OF a(1) _ violating_high this calm_low, of 1000 900] a(2)
  have one: "\<not> isGameOver (deadlineRun playing [(1000, high_board, [0, 1, 2, 3]), (2500, high_board, [0, 1, 2, 3])])"
    and three: "deadLineViolatedStartTime (deadlineRun playing [(900, low_board, [0, 1, 2, 3])]) = None"
    by (simp_all add: DEADLINE_THRESHOLD_MS_def)
  have "\<forall>st \<in> set [(2500 :: real, high_board, [0, 1, 2, 3 :: nat]), (2501, high_board, [0, 1, 2, 3])].
          violating playing st"
    using violating_high[of 2500] violating_high[of 2501] by simp
  from deadline_grace[OF a(1) _ violating_high this calm_low, of 1000 900]
  have two: "isGameOver (deadlineRun playing [(900, low_board, [0, 1, 2, 3]), (1000, high_board, [0, 1, 2, 3]),
                                       (2500, high_board, [0, 1, 2, 3]), (2501, high_board, [0, 1, 2, 3])])"
    by (simp add: DEADLINE_THRESHOLD_MS_def)
  from one two three show ?thesis by simp
qed


section \<open>The order of the pairs of a step\<close>

lemma agree_refl: "agree s s"
  by (simp add: agree_def)

lemma agree_mergeLevel:
  assumes "agree s t" "fst pr < nextId s" "snd pr < nextId s"
  shows "mergeLevel t pr = mergeLevel s pr" "midpoint_x t pr = midpoint_x s pr"
    "midpoint_y t pr = midpoint_y s pr"
proof -
  have a: "planet (bodies t (fst pr)) = planet (bodies s (fst pr))"
      "position_x (bodies t (fst pr)) = position_x (bodies s (fst pr))"
      "position_y (bodies t (fst pr)) = position_y (bodies s (fst pr))"
    using assms(1,2) by (simp_all add: agree_def)
  have b: "planet (bodies t (snd pr)) = planet (bodies s (snd pr))"
      "position_x (bodies t (snd pr)) = position_x (bodies s (snd pr))"
      "position_y (bodies t (snd pr)) = position_y (bodies s (snd pr))"
    using assms(1,3) by (simp_all add: agree_def)
  show "mergeLevel t pr = mergeLevel s pr" by (simp only: mergeLevel_def a b)
  show "midpoint_x t pr = midpoint_x s pr" by (simp only: midpoint_x_def a b)
  show "midpoint_y t pr = midpoint_y s pr" by (simp only: midpoint_y_def a b)
qed

lemma agree_boundaryContact: "agree s t \<Longrightarrow> agree s (boundaryContact now a b t)"
  by (simp add: agree_def)

lemma pair_step:
  assumes ag: "agree s t" and fresh: "a < nextId s" "b < nextId s"
    and pos: "\<And>lv. mergeLevel s (a, b) = Some lv \<Longrightarrow> 1 \<le> lv"
    and unlocked: "mergeLevel s (a, b) \<noteq> None \<Longrightarrow> a \<notin> mergeLockedBodies t \<and> b \<notin> mergeLockedBodies t"
  shows "\<exists>t'. collisionPair now t (a, b) = Inr t' \<and> agree s t'
       \<and> score t' = score t + pairGain s (a, b)
       \<and> scorePops t' = scorePops t @ pairPops now s (a, b)
       \<and> flashes t' = flashes t @ pairFlashes now s (a, b)
       \<and> blackHoleEffects t' = blackHoleEffects t @ pairHoles now s (a, b)
       \<and> mergeLockedBodies t' = mergeLockedBodies t
            \<union> (if mergeLevel s (a, b) = None then {} else {a, b})"
proof -
  note eq = agree_mergeLevel[OF ag, of "(a, b)", simplified, OF fresh]
  show ?thesis
  proof (cases "mergeLevel s (a, b)")
    case None
    then have "collisionPair now t (a, b) = Inr (boundaryContact now a b t)"
      using eq(1) by (simp add: collisionPair_none)
    then show ?thesis
      using None agree_boundaryContact[OF ag]
      by (simp add: pairGain_def pairPops_def pairFlashes_def pairHoles_def)
  next
    case (Some lv)
    then have le: "lv \<le> 11" by (auto simp: mergeLevel_def split: option.splits if_splits)
    have ul: "a \<notin> mergeLockedBodies t" "b \<notin> mergeLockedBodies t" using unlocked Some by simp_all
    have mid: "(position_x (bodies t a) + position_x (bodies t b)) / 2 = midpoint_x s (a, b)"
      "(position_y (bodies t a) + position_y (bodies t b)) / 2 = midpoint_y s (a, b)"
      using eq(2,3) by (simp_all add: midpoint_x_def midpoint_y_def)
    show ?thesis
    proof (cases "lv = 11")
      case True
      have "collisionPair now t (a, b) = Inr (triggerBlackHole now
           ((position_x (bodies t a) + position_x (bodies t b)) / 2)
           ((position_y (bodies t a) + position_y (bodies t b)) / 2)
           ((boundaryContact now a b t)\<lparr>mergeLockedBodies := insert b (insert a (mergeLockedBodies t))\<rparr>))"
        using Some True eq(1) ul by (intro collisionPair_mega) simp_all
      moreover have "agree s (triggerBlackHole now x y
           ((boundaryContact now a b t)\<lparr>mergeLockedBodies := L\<rparr>))" for x y L
        using ag by (simp add: agree_def)
      ultimately show ?thesis
        using Some True mid
        by (auto simp: pairGain_def pairPops_def pairFlashes_def pairHoles_def)
    next
      case False
      then have lt: "lv < 11" using le by simp
      let ?u = "(boundaryContact now a b t)\<lparr>mergeLockedBodies := insert b (insert a (mergeLockedBodies t))\<rparr>"
      have run: "collisionPair now t (a, b) = handleMerge now a b ?u"
        using Some lt eq(1) ul by (intro collisionPair_merge[of t a b lv]) simp_all
      have pa: "planet (bodies ?u a) = Some lv"
        using Some eq(1) by (auto simp: mergeLevel_def split: option.splits if_splits)
      from pos[OF Some] lt obtain d where d: "PLANETS (lv + 1) = Some d"
        using PLANETS_defined[of "lv + 1"] by auto
      note f = handleMerge_fields[OF pa d, of now b]
      have ag': "agree s (projr (handleMerge now a b ?u))"
        using ag by (auto simp: agree_def f(2,3))
      have "collisionPair now t (a, b) = Inr (projr (handleMerge now a b ?u))"
        using run handleMerge_Inr[OF pa d, of now b] by simp
      then show ?thesis
        using ag' Some False d mid
        by (auto simp: f pairGain_def pairPops_def pairFlashes_def pairHoles_def)
    qed
  qed
qed


lemma pair_locked_step:
  assumes ag: "agree s t" and locked: "a \<in> mergeLockedBodies t \<or> b \<in> mergeLockedBodies t"
  shows "\<exists>t'. collisionPair now t (a, b) = Inr t' \<and> agree s t'
       \<and> score t' = score t \<and> scorePops t' = scorePops t \<and> flashes t' = flashes t
       \<and> blackHoleEffects t' = blackHoleEffects t
       \<and> mergeLockedBodies t' = mergeLockedBodies t"
  using collisionPair_locked_any[OF locked, of now] agree_boundaryContact[OF ag, of now a b]
  by simp

lemma pair_general:
  assumes ag: "agree s t" and fresh: "a < nextId s" "b < nextId s"
    and pos: "\<And>lv. mergeLevel s (a, b) = Some lv \<Longrightarrow> 1 \<le> lv"
  shows "\<exists>t'. collisionPair now t (a, b) = Inr t' \<and> agree s t'
       \<and> score t' = score t + (if acts s (mergeLockedBodies t) (a, b) then pairGain s (a, b) else 0)
       \<and> scorePops t' = scorePops t
            @ (if acts s (mergeLockedBodies t) (a, b) then pairPops now s (a, b) else [])
       \<and> flashes t' = flashes t
            @ (if acts s (mergeLockedBodies t) (a, b) then pairFlashes now s (a, b) else [])
       \<and> blackHoleEffects t' = blackHoleEffects t
            @ (if acts s (mergeLockedBodies t) (a, b) then pairHoles now s (a, b) else [])
       \<and> mergeLockedBodies t' =
            (if acts s (mergeLockedBodies t) (a, b) then lock (mergeLockedBodies t) (a, b)
             else mergeLockedBodies t)"
proof (cases "mergeLevel s (a, b) = None")
  case True
  then have na: "\<not> acts s (mergeLockedBodies t) (a, b)" by (simp add: acts_def)
  from pair_step[OF ag fresh pos, of now] True na show ?thesis
    by (auto simp: pairGain_def pairPops_def pairFlashes_def pairHoles_def)
next
  case False
  show ?thesis
  proof (cases "a \<in> mergeLockedBodies t \<or> b \<in> mergeLockedBodies t")
    case True
    then have na: "\<not> acts s (mergeLockedBodies t) (a, b)" by (auto simp: acts_def)
    from pair_locked_step[OF ag True, of now] na show ?thesis by auto
  next
    case free: False
    then have a: "acts s (mergeLockedBodies t) (a, b)" using False by (simp add: acts_def)
    have "mergeLevel s (a, b) \<noteq> None \<Longrightarrow> a \<notin> mergeLockedBodies t \<and> b \<notin> mergeLockedBodies t"
      using free by simp
    from pair_step[OF ag fresh pos this, of now] a False show ?thesis
      by (auto simp: lock_def)
  qed
qed

lemma run_general:
  assumes "agree s t"
    and "\<forall>pr \<in> set prs. fst pr < nextId s \<and> snd pr < nextId s"
    and "\<forall>pr \<in> set prs. \<forall>lv. mergeLevel s pr = Some lv \<longrightarrow> 1 \<le> lv"
  shows "\<exists>t'. collisionStart now t prs = Inr t'
       \<and> score t' = score t + sum_list (map (pairGain s) (acting s (mergeLockedBodies t) prs))
       \<and> scorePops t' = scorePops t
            @ concat (map (pairPops now s) (acting s (mergeLockedBodies t) prs))
       \<and> flashes t' = flashes t
            @ concat (map (pairFlashes now s) (acting s (mergeLockedBodies t) prs))
       \<and> blackHoleEffects t' = blackHoleEffects t
            @ concat (map (pairHoles now s) (acting s (mergeLockedBodies t) prs))"
  using assms
proof (induction prs arbitrary: t)
  case Nil
  then show ?case by simp
next
  case (Cons pr prs)
  obtain a b where pr: "pr = (a, b)" by (cases pr)
  have fresh: "a < nextId s" "b < nextId s" using Cons.prems(2) pr by auto
  have pos: "\<And>lv. mergeLevel s (a, b) = Some lv \<Longrightarrow> 1 \<le> lv" using Cons.prems(3) pr by auto
  from pair_general[OF Cons.prems(1) fresh pos, of now] obtain t1 where
    t1: "collisionPair now t (a, b) = Inr t1" "agree s t1"
        "score t1 = score t + (if acts s (mergeLockedBodies t) (a, b) then pairGain s (a, b) else 0)"
        "scorePops t1 = scorePops t
            @ (if acts s (mergeLockedBodies t) (a, b) then pairPops now s (a, b) else [])"
        "flashes t1 = flashes t
            @ (if acts s (mergeLockedBodies t) (a, b) then pairFlashes now s (a, b) else [])"
        "blackHoleEffects t1 = blackHoleEffects t
            @ (if acts s (mergeLockedBodies t) (a, b) then pairHoles now s (a, b) else [])"
        "mergeLockedBodies t1 =
            (if acts s (mergeLockedBodies t) (a, b) then lock (mergeLockedBodies t) (a, b)
             else mergeLockedBodies t)"
    by blast
  have rest: "\<forall>pr \<in> set prs. fst pr < nextId s \<and> snd pr < nextId s"
     "\<forall>pr \<in> set prs. \<forall>lv. mergeLevel s pr = Some lv \<longrightarrow> 1 \<le> lv"
    using Cons.prems(2,3) by simp_all
  from Cons.IH[OF t1(2) rest] obtain t' where
    t': "collisionStart now t1 prs = Inr t'"
        "score t' = score t1 + sum_list (map (pairGain s) (acting s (mergeLockedBodies t1) prs))"
        "scorePops t' = scorePops t1
            @ concat (map (pairPops now s) (acting s (mergeLockedBodies t1) prs))"
        "flashes t' = flashes t1
            @ concat (map (pairFlashes now s) (acting s (mergeLockedBodies t1) prs))"
        "blackHoleEffects t' = blackHoleEffects t1
            @ concat (map (pairHoles now s) (acting s (mergeLockedBodies t1) prs))"
    by blast
  show ?case
  proof (cases "acts s (mergeLockedBodies t) (a, b)")
    case True
    then show ?thesis using t1 t' pr by simp
  next
    case False
    then show ?thesis using t1 t' pr by simp
  qed
qed

text \<open>The pairs the handler acts on, whatever their order.\<close>

lemma sharing_sym: "sharing p q \<Longrightarrow> sharing q p"
  by (auto simp: sharing_def)

lemma acts_lock: "acts s (lock L p) r \<longleftrightarrow> acts s L r \<and> \<not> sharing p r"
  by (auto simp: acts_def lock_def sharing_def)

lemma lock_commute: "lock (lock L p) q = lock (lock L q) p"
  by (auto simp: lock_def)

lemma acts_mergeable: "acts s L p \<Longrightarrow> mergeLevel s p \<noteq> None"
  by (simp add: acts_def)

lemma sharing_level:
  assumes "mergeLevel s p \<noteq> None" "mergeLevel s q \<noteq> None" "sharing p q"
  shows "mergeLevel s p = mergeLevel s q"
  using assms by (auto simp: mergeLevel_def sharing_def split: option.splits if_splits)

lemma acting_cong:
  assumes "\<forall>r \<in> set xs. acts s L1 r \<longleftrightarrow> acts s L2 r"
  shows "acting s L1 xs = acting s L2 xs"
  using assms
proof (induction xs arbitrary: L1 L2)
  case Nil
  then show ?case by simp
next
  case (Cons p xs)
  have p: "acts s L1 p \<longleftrightarrow> acts s L2 p" using Cons.prems by simp
  show ?case
  proof (cases "acts s L1 p")
    case True
    have "\<forall>r \<in> set xs. acts s (lock L1 p) r \<longleftrightarrow> acts s (lock L2 p) r"
      using Cons.prems by (simp add: acts_lock)
    from Cons.IH[OF this] True p show ?thesis by simp
  next
    case False
    have "\<forall>r \<in> set xs. acts s L1 r \<longleftrightarrow> acts s L2 r"
      using Cons.prems by simp
    from Cons.IH[OF this] False p show ?thesis by simp
  qed
qed

lemma acting_swap:
  assumes g: "grouped s S" and sub: "p \<in> S" "q \<in> S" "set rest \<subseteq> S"
  shows "mset (map (mergeLevel s) (acting s L (p # q # rest)))
       = mset (map (mergeLevel s) (acting s L (q # p # rest)))"
proof (cases "acts s L p")
  case ap: True
  show ?thesis
  proof (cases "acts s L q")
    case aq: True
    show ?thesis
    proof (cases "sharing p q")
      case sh: True
      have lv: "mergeLevel s p = mergeLevel s q"
        using acts_mergeable[OF ap] acts_mergeable[OF aq] sh by (rule sharing_level)
      have "\<forall>r \<in> set rest. acts s (lock L p) r \<longleftrightarrow> acts s (lock L q) r"
      proof
        fix r assume r: "r \<in> set rest"
        then have rS: "r \<in> S" using sub(3) by auto
        show "acts s (lock L p) r \<longleftrightarrow> acts s (lock L q) r"
        proof (cases "mergeLevel s r = None")
          case True
          then show ?thesis by (simp add: acts_def)
        next
          case False
          have "sharing p r \<longleftrightarrow> sharing q r"
          proof
            assume "sharing p r"
            then show "sharing q r"
              using g sub(1,2) rS acts_mergeable[OF ap] acts_mergeable[OF aq] False
                sharing_sym[OF sh] unfolding grouped_def by blast
          next
            assume "sharing q r"
            then show "sharing p r"
              using g sub(1,2) rS acts_mergeable[OF ap] acts_mergeable[OF aq] False sh
              unfolding grouped_def by blast
          qed
          then show ?thesis by (simp add: acts_lock)
        qed
      qed
      then have "acting s (lock L p) rest = acting s (lock L q) rest" by (rule acting_cong)
      moreover have "\<not> acts s (lock L p) q" using sh by (simp add: acts_lock)
      moreover have "\<not> acts s (lock L q) p" using sharing_sym[OF sh] by (simp add: acts_lock)
      ultimately show ?thesis using ap aq lv by simp
    next
      case nsh: False
      then have nsh': "\<not> sharing q p" using sharing_sym by blast
      have "acts s (lock L p) q" using aq nsh by (simp add: acts_lock)
      moreover have "acts s (lock L q) p" using ap nsh' by (simp add: acts_lock)
      ultimately show ?thesis using ap aq lock_commute[of L p q] by simp
    qed
  next
    case nq: False
    then have "\<not> acts s (lock L p) q" by (simp add: acts_lock)
    then show ?thesis using ap nq by simp
  qed
next
  case np: False
  then have "\<not> acts s (lock L q) p" by (simp add: acts_lock)
  then show ?thesis using np by simp
qed

lemma acting_step:
  "mset (map (mergeLevel s) (acting s L (p # xs))) =
     (if acts s L p
      then add_mset (mergeLevel s p) (mset (map (mergeLevel s) (acting s (lock L p) xs)))
      else mset (map (mergeLevel s) (acting s L xs)))"
  by simp

lemma acting_front:
  assumes g: "grouped s S" and sub: "p \<in> S" "set ys1 \<subseteq> S" "set ys2 \<subseteq> S"
  shows "mset (map (mergeLevel s) (acting s L (ys1 @ p # ys2)))
       = mset (map (mergeLevel s) (acting s L (p # ys1 @ ys2)))"
  using sub(2)
proof (induction ys1 arbitrary: L)
  case Nil
  then show ?case by simp
next
  case (Cons q ys1)
  have ih: "mset (map (mergeLevel s) (acting s L' (ys1 @ p # ys2)))
       = mset (map (mergeLevel s) (acting s L' (p # ys1 @ ys2)))" for L'
    using Cons by simp
  have "mset (map (mergeLevel s) (acting s L ((q # ys1) @ p # ys2)))
      = mset (map (mergeLevel s) (acting s L (q # p # ys1 @ ys2)))"
    unfolding append_Cons acting_step[of s L q] by (simp only: ih)
  also have "\<dots> = mset (map (mergeLevel s) (acting s L (p # q # ys1 @ ys2)))"
    using Cons.prems sub(3) by (intro acting_swap[OF g] sub(1)) auto
  finally show ?case by simp
qed

lemma acting_perm:
  assumes g: "grouped s S"
  shows "set xs \<subseteq> S \<Longrightarrow> mset ys = mset xs \<Longrightarrow>
     mset (map (mergeLevel s) (acting s L ys)) = mset (map (mergeLevel s) (acting s L xs))"
proof (induction xs arbitrary: ys L)
  case Nil
  then show ?case by simp
next
  case (Cons p xs)
  have "p \<in> set ys" using Cons.prems(2) by (metis list.set_intros(1) mset_eq_setD)
  then obtain ys1 ys2 where ys: "ys = ys1 @ p # ys2" by (meson split_list)
  have m: "mset (ys1 @ ys2) = mset xs" using Cons.prems(2) ys by simp
  have sub: "p \<in> S" "set xs \<subseteq> S" using Cons.prems(1) by auto
  have "set (ys1 @ ys2) = set xs" using m by (rule mset_eq_setD)
  then have sub': "set ys1 \<subseteq> S" "set ys2 \<subseteq> S" using sub(2) by auto
  have ih: "mset (map (mergeLevel s) (acting s L' (ys1 @ ys2)))
      = mset (map (mergeLevel s) (acting s L' xs))" for L'
    using Cons.IH[OF sub(2) m] .
  have "mset (map (mergeLevel s) (acting s L ys))
      = mset (map (mergeLevel s) (acting s L (p # ys1 @ ys2)))"
    unfolding ys by (rule acting_front[OF g sub(1) sub'])
  also have "\<dots> = mset (map (mergeLevel s) (acting s L (p # xs)))"
    unfolding acting_step by (simp only: ih)
  finally show ?case .
qed

lemma acting_mergeable: "pr \<in> set (acting s L prs) \<Longrightarrow> mergeLevel s pr \<noteq> None \<and> pr \<in> set prs"
  by (induction prs arbitrary: L) (auto simp: acts_def split: if_splits)

lemma pairGain_level: "pairGain s pr = levelGain (mergeLevel s pr)"
  by (simp add: pairGain_def levelGain_def)

lemma effects_of_merges:
  assumes "\<forall>pr \<in> set A. \<exists>lv. mergeLevel s pr = Some lv \<and> lv \<noteq> 11"
  shows "map pop_score (concat (map (pairPops now s) A)) = map (pairGain s) A"
    and "length (concat (map (pairFlashes now s) A)) = length A"
    and "concat (map (pairHoles now s) A) = []"
  using assms
  by (induction A) (auto simp: pairPops_def pairFlashes_def pairHoles_def)

lemma gains_by_level:
  "mset (map (pairGain s) A) = image_mset levelGain (mset (map (mergeLevel s) A))"
  by (induction A) (simp_all add: pairGain_level)

lemma sum_gains_by_level:
  "sum_list (map (pairGain s) A) = sum_mset (image_mset levelGain (mset (map (mergeLevel s) A)))"
  by (induction A) (simp_all add: pairGain_level)

lemma run_merges:
  assumes fresh: "\<forall>pr \<in> set prs. fst pr < nextId s \<and> snd pr < nextId s"
    and levels: "\<forall>pr \<in> set prs. \<forall>lv. mergeLevel s pr = Some lv \<longrightarrow> 1 \<le> lv \<and> lv < 11"
  shows "\<exists>s1. collisionStart now s prs = Inr s1
       \<and> score s1 = score s + sum_list (map (pairGain s) (acting s (mergeLockedBodies s) prs))
       \<and> map pop_score (scorePops s1) = map pop_score (scorePops s)
            @ map (pairGain s) (acting s (mergeLockedBodies s) prs)
       \<and> length (flashes s1) = length (flashes s) + length (acting s (mergeLockedBodies s) prs)
       \<and> blackHoleEffects s1 = blackHoleEffects s"
proof -
  let ?A = "acting s (mergeLockedBodies s) prs"
  have pos: "\<forall>pr \<in> set prs. \<forall>lv. mergeLevel s pr = Some lv \<longrightarrow> 1 \<le> lv"
    using levels by blast
  have merges: "\<forall>pr \<in> set ?A. \<exists>lv. mergeLevel s pr = Some lv \<and> lv \<noteq> 11"
  proof
    fix pr assume "pr \<in> set ?A"
    from acting_mergeable[OF this] obtain lv where "mergeLevel s pr = Some lv" "pr \<in> set prs"
      by auto
    then show "\<exists>lv. mergeLevel s pr = Some lv \<and> lv \<noteq> 11" using levels by fastforce
  qed
  note e = effects_of_merges[OF merges, of now]
  from run_general[OF agree_refl fresh pos, of now] obtain s1 where
    s1: "collisionStart now s prs = Inr s1"
        "score s1 = score s + sum_list (map (pairGain s) ?A)"
        "scorePops s1 = scorePops s @ concat (map (pairPops now s) ?A)"
        "flashes s1 = flashes s @ concat (map (pairFlashes now s) ?A)"
        "blackHoleEffects s1 = blackHoleEffects s @ concat (map (pairHoles now s) ?A)"
    by blast
  show ?thesis using s1 e by simp
qed

lemma merge_gain_positive:
  assumes "mergeLevel s pr = Some lv" "1 \<le> lv" "lv < 11"
  shows "0 < pairGain s pr"
  using assms PLANETS_defined[of "lv + 1"] by (auto simp: pairGain_def)

lemma four_threes_levels:
  "mergeLevel four_threes (3, 4) = Some 3" "mergeLevel four_threes (4, 5) = Some 3"
  "mergeLevel four_threes (0, 4) = None"
  by (simp_all add: mergeLevel_def four_threes_def example_session_def piece_def wall_def
      Bodies_circle_def)

text \<open>
  Claim C7 does not hold as stated. Four planets of level 3 touch in a row, 3-4,
  4-5 and 5-6. In the order \<open>[(3, 4), (4, 5), (5, 6)]\<close> the handler merges 3 with 4
  and 5 with 6: two merges, 160 points. In the order \<open>[(4, 5), (3, 4), (5, 6)]\<close> it
  merges 4 with 5 and the other two pairs are locked out: one merge, 80 points.
\<close>

theorem order_matters:
  "mset [(4, 5), (3, 4), (5, 6)] = mset [(3, 4), (4, 5), (5 :: nat, 6 :: nat)]
   \<and> (\<exists>s1 s2. collisionStart 0 four_threes [(3, 4), (4, 5), (5, 6)] = Inr s1
         \<and> collisionStart 0 four_threes [(4, 5), (3, 4), (5, 6)] = Inr s2
         \<and> score s1 = 160 \<and> score s2 = 80
         \<and> map pop_score (scorePops s1) = [80, 80] \<and> map pop_score (scorePops s2) = [80]
         \<and> length (flashes s1) = 2 \<and> length (flashes s2) = 1)"
  by (simp add: four_threes_def eval_defs)

text \<open>
  Claim C7, amended. The step starts with an empty lock set, the pairs are among the
  bodies of the world, and every pair of two planets of one level has a
  level from 1 to 10, so the list holds no pair of suns (what the black hole does
  to the other pairs of its step is left out here). If the pairs of the list are
  grouped, every permutation of the list is processed without an exception, and the
  two orders give the same multiset of merges with their levels and score
  contributions: the score popups of each run carry the gains of the pairs acted
  on, the levels of the pairs acted on form the same multiset, and so do the popup
  scores; the final score and the number of flashes are the same, and there is no
  black-hole effect. The condition cannot be dropped for the sub-lists: three
  pairs \<open>p\<close>, \<open>q\<close>, \<open>r\<close> of the list where \<open>q\<close> shares a body with \<open>p\<close> and with \<open>r\<close>
  but \<open>p\<close> and \<open>r\<close> share none give one merge in the order \<open>q, p, r\<close> and two merges
  in the order \<open>p, r, q\<close>.
\<close>

theorem grouped_pairs_commute:
  assumes fresh: "\<forall>pr \<in> set prs. fst pr < nextId s \<and> snd pr < nextId s"
    and live: "\<forall>pr \<in> set prs. fst pr \<in> set (world s) \<and> snd pr \<in> set (world s)"
    and levels: "\<forall>pr \<in> set prs. \<forall>lv. mergeLevel s pr = Some lv \<longrightarrow> 1 \<le> lv \<and> lv < 11"
    and start: "mergeLockedBodies s = {}"
    and perm: "mset prs' = mset prs"
  shows "(grouped s (set prs) \<longrightarrow>
           (\<exists>s1 s2. collisionStart now s prs = Inr s1 \<and> collisionStart now s prs' = Inr s2
              \<and> map pop_score (scorePops s1)
                   = map pop_score (scorePops s) @ map (pairGain s) (acting s {} prs)
              \<and> map pop_score (scorePops s2)
                   = map pop_score (scorePops s) @ map (pairGain s) (acting s {} prs')
              \<and> mset (map (mergeLevel s) (acting s {} prs))
                   = mset (map (mergeLevel s) (acting s {} prs'))
              \<and> mset (map pop_score (scorePops s1)) = mset (map pop_score (scorePops s2))
              \<and> score s1 = score s2
              \<and> length (flashes s1) = length (flashes s2)
              \<and> blackHoleEffects s1 = blackHoleEffects s
              \<and> blackHoleEffects s2 = blackHoleEffects s))
       \<and> (\<forall>p \<in> set prs. \<forall>q \<in> set prs. \<forall>r \<in> set prs.
            mergeLevel s p \<noteq> None \<and> mergeLevel s q \<noteq> None \<and> mergeLevel s r \<noteq> None
            \<and> sharing p q \<and> sharing q r \<and> \<not> sharing p r \<longrightarrow>
            (\<exists>u1 u2. collisionStart now s [q, p, r] = Inr u1
               \<and> collisionStart now s [p, r, q] = Inr u2
               \<and> length (flashes u1) = length (flashes s) + 1
               \<and> length (flashes u2) = length (flashes s) + 2
               \<and> score u1 < score u2))"
proof (intro conjI impI ballI)
  assume g: "grouped s (set prs)"
  have set_eq: "set prs' = set prs" using perm by (rule mset_eq_setD)
  from run_merges[OF fresh levels, of now] start obtain s1 where
    s1: "collisionStart now s prs = Inr s1"
        "score s1 = score s + sum_list (map (pairGain s) (acting s {} prs))"
        "map pop_score (scorePops s1) = map pop_score (scorePops s)
            @ map (pairGain s) (acting s {} prs)"
        "length (flashes s1) = length (flashes s) + length (acting s {} prs)"
        "blackHoleEffects s1 = blackHoleEffects s"
    by auto
  from run_merges[OF fresh[folded set_eq] levels[folded set_eq], of now] start obtain s2 where
    s2: "collisionStart now s prs' = Inr s2"
        "score s2 = score s + sum_list (map (pairGain s) (acting s {} prs'))"
        "map pop_score (scorePops s2) = map pop_score (scorePops s)
            @ map (pairGain s) (acting s {} prs')"
        "length (flashes s2) = length (flashes s) + length (acting s {} prs')"
        "blackHoleEffects s2 = blackHoleEffects s"
    by auto
  have lv: "mset (map (mergeLevel s) (acting s {} prs))
          = mset (map (mergeLevel s) (acting s {} prs'))"
    using acting_perm[OF g subset_refl perm, of "{}"] by simp
  have len: "length (acting s {} prs) = length (acting s {} prs')"
    using lv by (metis length_map size_mset)
  have gains: "mset (map (pairGain s) (acting s {} prs)) = mset (map (pairGain s) (acting s {} prs'))"
    unfolding gains_by_level lv ..
  have pops: "mset (map pop_score (scorePops s1)) = mset (map pop_score (scorePops s2))"
    unfolding s1(3) s2(3) using gains by simp
  have sc: "score s1 = score s2"
    unfolding s1(2) s2(2) sum_gains_by_level lv ..
  have fl: "length (flashes s1) = length (flashes s2)"
    unfolding s1(4) s2(4) len ..
  show "\<exists>s1 s2. collisionStart now s prs = Inr s1 \<and> collisionStart now s prs' = Inr s2
              \<and> map pop_score (scorePops s1)
                   = map pop_score (scorePops s) @ map (pairGain s) (acting s {} prs)
              \<and> map pop_score (scorePops s2)
                   = map pop_score (scorePops s) @ map (pairGain s) (acting s {} prs')
              \<and> mset (map (mergeLevel s) (acting s {} prs))
                   = mset (map (mergeLevel s) (acting s {} prs'))
              \<and> mset (map pop_score (scorePops s1)) = mset (map pop_score (scorePops s2))
              \<and> score s1 = score s2
              \<and> length (flashes s1) = length (flashes s2)
              \<and> blackHoleEffects s1 = blackHoleEffects s
              \<and> blackHoleEffects s2 = blackHoleEffects s"
    by (intro exI[of _ s1] exI[of _ s2] conjI)
       (fact s1(1) s2(1) s1(3) s2(3) lv pops sc fl s1(5) s2(5))+
next
  fix p q r
  assume mem: "p \<in> set prs" "q \<in> set prs" "r \<in> set prs"
    and h: "mergeLevel s p \<noteq> None \<and> mergeLevel s q \<noteq> None \<and> mergeLevel s r \<noteq> None
            \<and> sharing p q \<and> sharing q r \<and> \<not> sharing p r"
  have ap: "acts s {} p" "acts s {} q" "acts s {} r" using h by (simp_all add: acts_def)
  have sh: "sharing q p" "sharing q r" "\<not> sharing p r" "sharing r q"
    using h sharing_sym by blast+
  have A1: "acting s {} [q, p, r] = [q]"
    using ap sh by (simp add: acts_lock)
  have A2: "acting s {} [p, r, q] = [p, r]"
    using ap sh by (simp add: acts_lock)
  have f1: "\<forall>pr \<in> set [q, p, r]. fst pr < nextId s \<and> snd pr < nextId s"
    and l1: "\<forall>pr \<in> set [q, p, r]. \<forall>lv. mergeLevel s pr = Some lv \<longrightarrow> 1 \<le> lv \<and> lv < 11"
    and f2: "\<forall>pr \<in> set [p, r, q]. fst pr < nextId s \<and> snd pr < nextId s"
    and l2: "\<forall>pr \<in> set [p, r, q]. \<forall>lv. mergeLevel s pr = Some lv \<longrightarrow> 1 \<le> lv \<and> lv < 11"
    using fresh levels mem by auto
  from run_merges[OF f1 l1, of now] start A1 obtain u1 where
    u1: "collisionStart now s [q, p, r] = Inr u1" "score u1 = score s + pairGain s q"
        "length (flashes u1) = length (flashes s) + 1"
    by auto
  from run_merges[OF f2 l2, of now] start A2 obtain u2 where
    u2: "collisionStart now s [p, r, q] = Inr u2" "score u2 = score s + (pairGain s p + pairGain s r)"
        "length (flashes u2) = length (flashes s) + 2"
    by auto
  have eq: "mergeLevel s p = mergeLevel s q" "mergeLevel s r = mergeLevel s q"
    using h sharing_level[of s p q] sharing_level[of s r q] sh by auto
  obtain lv where lvq: "mergeLevel s q = Some lv" using h by auto
  then have rng: "1 \<le> lv" "lv < 11" using levels mem(2) by auto
  have "pairGain s p = pairGain s q" "pairGain s r = pairGain s q"
    using eq by (simp_all add: pairGain_level)
  moreover have "0 < pairGain s q" using lvq rng by (rule merge_gain_positive)
  ultimately have "score u1 < score u2" using u1(2) u2(2) by simp
  then show "\<exists>u1 u2. collisionStart now s [q, p, r] = Inr u1
               \<and> collisionStart now s [p, r, q] = Inr u2
               \<and> length (flashes u1) = length (flashes s) + 1
               \<and> length (flashes u2) = length (flashes s) + 2
               \<and> score u1 < score u2"
    using u1 u2 by blast
qed

theorem grouped_pairs_commute_witness:
  "grouped four_threes (set [(3, 4), (0, 4), (4, 5)])
   \<and> (\<exists>s1 s2. collisionStart 0 four_threes [(3, 4), (0, 4), (4, 5)] = Inr s1
         \<and> collisionStart 0 four_threes [(4, 5), (3, 4), (0, 4)] = Inr s2
         \<and> mset (map pop_score (scorePops s1)) = mset (map pop_score (scorePops s2))
         \<and> score s1 = score s2
         \<and> length (flashes s1) = length (flashes s2)
         \<and> blackHoleEffects s1 = [] \<and> blackHoleEffects s2 = [])"
proof -
  have g: "grouped four_threes (set [(3, 4), (0, 4), (4, 5)])"
    by (simp add: grouped_def four_threes_levels sharing_def)
  have fresh: "\<forall>pr \<in> set [(3, 4), (0, 4), (4, 5)]. fst pr < nextId four_threes \<and> snd pr < nextId four_threes"
    by (simp add: four_threes_def example_session_def)
  have live: "\<forall>pr \<in> set [(3, 4), (0, 4), (4, 5)].
      fst pr \<in> set (world four_threes) \<and> snd pr \<in> set (world four_threes)"
    by (simp add: four_threes_def example_session_def)
  have levels: "\<forall>pr \<in> set [(3, 4), (0, 4), (4, 5)].
      \<forall>lv. mergeLevel four_threes pr = Some lv \<longrightarrow> 1 \<le> lv \<and> lv < 11"
    by (simp add: four_threes_levels)
  have start: "mergeLockedBodies four_threes = {}" "blackHoleEffects four_threes = []"
    by (simp_all add: four_threes_def example_session_def)
  have perm: "mset [(4, 5), (3, 4), (0 :: nat, 4 :: nat)] = mset [(3, 4), (0, 4), (4, 5)]"
    by simp
  from grouped_pairs_commute[OF fresh live levels start(1) perm, of 0] g
  obtain s1 s2 where r: "collisionStart 0 four_threes [(3, 4), (0, 4), (4, 5)] = Inr s1"
      "collisionStart 0 four_threes [(4, 5), (3, 4), (0, 4)] = Inr s2"
      "mset (map pop_score (scorePops s1)) = mset (map pop_score (scorePops s2))"
      "score s1 = score s2" "length (flashes s1) = length (flashes s2)"
      "blackHoleEffects s1 = blackHoleEffects four_threes"
      "blackHoleEffects s2 = blackHoleEffects four_threes"
    by blast
  show ?thesis
    using g r(1-5) r(6,7)[unfolded start(2)] by blast
qed


end
